theory Spec2Isabelle
  imports Main "HOL-Library.AList"
begin

section \<open>A model of the Pivotal Tracker client (pivotalclient/__init__.py)\<close>

text \<open>
  The client issues authenticated GET requests through the \<^verbatim>\<open>requests\<close> library and
  pages through enveloped responses. The model below follows the Python source line by
  line. Everything the source does beyond returning a value is explicit:
  \<^item> exceptions are values of \<open>py_error\<close>, and a call returns \<open>py_error + 'a\<close>;
  \<^item> the dictionaries the code copies and mutates (\<^verbatim>\<open>querystring\<close>,
    \<^verbatim>\<open>self.api_filter\<close>) live in a heap of dictionaries and are passed by address;
  \<^item> the HTTP library is the environment: a function from the requests issued so far and
    the current request to what \<^verbatim>\<open>requests.get\<close> does; every request is logged;
  \<^item> the \<^verbatim>\<open>while True\<close> loop of \<^verbatim>\<open>_get_all\<close> may run forever, so the loop returns
    an \<open>option\<close> and \<open>None\<close> is the run that never returns.

  Names are the source's; a leading underscore is written \<open>p_\<close> (\<^verbatim>\<open>_get\<close> is \<open>p_get\<close>,
  \<^verbatim>\<open>_get_all\<close> is \<open>p_get_all\<close>).
\<close>

subsection \<open>Python values\<close>

text \<open>
  The values the client handles: what \<^verbatim>\<open>json.loads\<close> produces, and the scalars callers
  pass as identifiers and query parameters. \<open>JNull\<close> is \<^verbatim>\<open>None\<close>. A parsed JSON object
  is an association list with distinct keys, in insertion order. Numbers are integers:
  JSON documents with fractional numbers are outside the model. Strings are lists of
  ASCII characters, so that \<open>length\<close> counts what Python's \<^verbatim>\<open>len\<close> counts.
\<close>

datatype json =
    JNull
  | JBool bool
  | JInt int
  | JStr string
  | JList "json list"
  | JObj "(string \<times> json) list"

type_synonym dict = "(string \<times> json) list"

datatype py_error =
    ApiError string
  | AttributeError
  | TypeError
  | KeyError
  | JSONDecodeError
  | RequestException string

text \<open>Truth value of a Python object, as \<^verbatim>\<open>if not x\<close> reads it.\<close>

fun truthy :: "json \<Rightarrow> bool" where
  "truthy JNull = False"
| "truthy (JBool b) = b"
| "truthy (JInt n) = (n \<noteq> 0)"
| "truthy (JStr s) = (s \<noteq> [])"
| "truthy (JList xs) = (xs \<noteq> [])"
| "truthy (JObj kvs) = (kvs \<noteq> [])"

text \<open>\<^verbatim>\<open>str(n)\<close> for an integer: decimal digits, with a minus sign when negative.\<close>

fun string_of_nat :: "nat \<Rightarrow> string" where
  "string_of_nat n =
     (if n < 10 then [''0123456789'' ! n]
      else string_of_nat (n div 10) @ [''0123456789'' ! (n mod 10)])"

declare string_of_nat.simps [simp del]

definition string_of_int :: "int \<Rightarrow> string" where
  "string_of_int i = (if i < 0 then CHR ''-'' # string_of_nat (nat (- i)) else string_of_nat (nat i))"

text \<open>
  \<^verbatim>\<open>'{}'.format(v)\<close>, that is \<^verbatim>\<open>str(v)\<close>. On lists and dictionaries Python prints the
  \<^verbatim>\<open>repr\<close> of the elements, which is a built-in outside this repository: it is the
  parameter \<open>py_repr\<close>.
\<close>

fun py_str :: "(json \<Rightarrow> string) \<Rightarrow> json \<Rightarrow> string" where
  "py_str py_repr JNull = ''None''"
| "py_str py_repr (JBool b) = (if b then ''True'' else ''False'')"
| "py_str py_repr (JInt n) = string_of_int n"
| "py_str py_repr (JStr s) = s"
| "py_str py_repr (JList xs) = py_repr (JList xs)"
| "py_str py_repr (JObj kvs) = py_repr (JObj kvs)"

text \<open>\<^verbatim>\<open>x.get(k, default)\<close>: only dictionaries have \<^verbatim>\<open>get\<close>.\<close>

fun dict_get :: "json \<Rightarrow> string \<Rightarrow> json \<Rightarrow> py_error + json" where
  "dict_get (JObj kvs) k d = Inr (case map_of kvs k of Some v \<Rightarrow> v | None \<Rightarrow> d)"
| "dict_get _ k d = Inl AttributeError"

text \<open>\<^verbatim>\<open>len(x)\<close>: lists, strings and dictionaries have a length.\<close>

fun py_len :: "json \<Rightarrow> py_error + nat" where
  "py_len (JList xs) = Inr (length xs)"
| "py_len (JStr s) = Inr (length s)"
| "py_len (JObj kvs) = Inr (length kvs)"
| "py_len _ = Inl TypeError"

text \<open>
  The elements \<^verbatim>\<open>for x in v\<close> and \<^verbatim>\<open>list.extend(v)\<close> go through: the items of a list,
  the characters of a string, the keys of a dictionary.
\<close>

fun py_iter :: "json \<Rightarrow> py_error + json list" where
  "py_iter (JList xs) = Inr xs"
| "py_iter (JStr s) = Inr (map (\<lambda>c. JStr [c]) s)"
| "py_iter (JObj kvs) = Inr (map (\<lambda>kv. JStr (fst kv)) kvs)"
| "py_iter _ = Inl TypeError"

text \<open>\<^verbatim>\<open>a + b\<close> on these values; \<^verbatim>\<open>True\<close> and \<^verbatim>\<open>False\<close> count as 1 and 0.\<close>

fun py_int :: "json \<Rightarrow> int option" where
  "py_int (JInt n) = Some n"
| "py_int (JBool b) = Some (if b then 1 else 0)"
| "py_int _ = None"

fun py_add :: "json \<Rightarrow> json \<Rightarrow> py_error + json" where
  "py_add (JStr s) (JStr t) = Inr (JStr (s @ t))"
| "py_add (JList xs) (JList ys) = Inr (JList (xs @ ys))"
| "py_add a b =
     (case (py_int a, py_int b) of
        (Some m, Some n) \<Rightarrow> Inr (JInt (m + n))
      | _ \<Rightarrow> Inl TypeError)"

subsection \<open>The heap of dictionaries, the request log and the HTTP library\<close>

type_synonym addr = nat

datatype request = GET (req_endpoint: string) (req_params: dict) (req_headers: "(string \<times> string) list")

record world =
  heap :: "dict list"
  calls :: "request list"

text \<open>
  What \<^verbatim>\<open>requests.get\<close> hands back: a response with a status code and a body
  (\<open>None\<close> when the body is not JSON), no response object at all (\<^verbatim>\<open>None\<close>, as a test
  double may return), or an exception of the library.
\<close>

datatype response = Response (status_code: int) (json_body: "json option")

datatype http_outcome = Raised string | Returned "response option"

type_synonym network = "request list \<Rightarrow> request \<Rightarrow> http_outcome"

text \<open>A new dictionary object (\<^verbatim>\<open>{}\<close>, \<^verbatim>\<open>d.copy()\<close>) and \<^verbatim>\<open>d[k] = v\<close>.\<close>

definition alloc :: "dict \<Rightarrow> world \<Rightarrow> addr \<times> world" where
  "alloc d w = (length (heap w), w\<lparr>heap := heap w @ [d]\<rparr>)"

definition dict_set :: "addr \<Rightarrow> string \<Rightarrow> json \<Rightarrow> world \<Rightarrow> world" where
  "dict_set a k v w = w\<lparr>heap := (heap w)[a := AList.update k v (heap w ! a)]\<rparr>"

text \<open>\<^verbatim>\<open>querystring.copy() if querystring else {}\<close>: an empty dictionary is falsy.\<close>

definition copy_or_empty :: "addr option \<Rightarrow> world \<Rightarrow> addr \<times> world" where
  "copy_or_empty querystring w =
     (case querystring of
        None \<Rightarrow> alloc [] w
      | Some a \<Rightarrow> if heap w ! a \<noteq> [] then alloc (heap w ! a) w else alloc [] w)"

subsection \<open>The client object\<close>

text \<open>
  A URL template with one \<^verbatim>\<open>{}\<close> field left open, such as \<^verbatim>\<open>self.api_activity\<close>:
  the text before the field and the text after it. (The API root and the identifiers
  are taken to contain no braces.)
\<close>

datatype template = Template string string

fun format1 :: "(json \<Rightarrow> string) \<Rightarrow> template \<Rightarrow> json \<Rightarrow> string" where
  "format1 py_repr (Template pre post) v = pre @ py_str py_repr v @ post"

text \<open>The attributes set under \<^verbatim>\<open>if self.account_id\<close> and \<^verbatim>\<open>if self.project_id\<close> are optional.\<close>

record client =
  auth_headers :: "(string \<times> string) list"
  account_id :: json
  project_id :: json
  api_root :: string
  api_accounts :: string
  api_account :: "string option"
  api_account_memberships :: "string option"
  api_projects :: string
  api_project :: "string option"
  api_project_memberships :: "string option"
  api_stories :: "string option"
  api_story :: "template option"
  api_activity :: "template option"
  api_integrations :: "string option"
  api_integration :: "template option"
  api_integration_stories :: "template option"
  api_filter :: addr

text \<open>\<^verbatim>\<open>PivotalClient.__init__\<close>; \<open>api_root = None\<close> or empty selects the default root.\<close>

definition new_client ::
  "(json \<Rightarrow> string) \<Rightarrow> string \<Rightarrow> json \<Rightarrow> json \<Rightarrow> string option \<Rightarrow> world \<Rightarrow> client \<times> world" where
  "new_client py_repr api_token acct proj root w =
     (let root' = (case root of None \<Rightarrow> ''https://www.pivotaltracker.com/services/v5''
                   | Some r \<Rightarrow> if r = [] then ''https://www.pivotaltracker.com/services/v5'' else r);
          accounts = root' @ ''/accounts'';
          account = accounts @ ''/'' @ py_str py_repr acct;
          projects = root' @ ''/projects'';
          project = projects @ ''/'' @ py_str py_repr proj;
          integrations = project @ ''/integrations'';
          (filt, w') = alloc [(''date_format'', JStr ''millis''), (''filter'', JNull)] w
      in (\<lparr> auth_headers = [(''X-TrackerToken'', api_token)],
            account_id = acct,
            project_id = proj,
            api_root = root',
            api_accounts = accounts,
            api_account = (if truthy acct then Some account else None),
            api_account_memberships = (if truthy acct then Some (account @ ''/memberships'') else None),
            api_projects = projects,
            api_project = (if truthy proj then Some project else None),
            api_project_memberships = (if truthy proj then Some (project @ ''/memberships'') else None),
            api_stories = (if truthy proj then Some (project @ ''/stories'') else None),
            api_story = (if truthy proj then Some (Template (project @ ''/stories/'') '''') else None),
            api_activity = (if truthy proj then Some (Template (project @ ''/stories/'') ''/activity'') else None),
            api_integrations = (if truthy proj then Some integrations else None),
            api_integration = (if truthy proj then Some (Template (integrations @ ''/'') '''') else None),
            api_integration_stories =
              (if truthy proj then Some (Template (integrations @ ''/'') ''/stories'') else None),
            api_filter = filt \<rparr>, w'))"

subsection \<open>Transport: _get\<close>

text \<open>
  \<^verbatim>\<open>bool(resp)\<close> of a \<^verbatim>\<open>requests.Response\<close> is its \<^verbatim>\<open>ok\<close> property: false for
  status codes from 400 to 599.
\<close>

definition resp_ok :: "response \<Rightarrow> bool" where
  "resp_ok r = (\<not> (400 \<le> status_code r \<and> status_code r < 600))"

text \<open>
  Lines 86 to 88 of the source: the status check, the error message and \<^verbatim>\<open>resp.json()\<close>.
  With no response object, \<^verbatim>\<open>not resp\<close> holds and building the message reads
  \<^verbatim>\<open>resp.status_code\<close>, which raises \<^verbatim>\<open>AttributeError\<close>.
\<close>

definition check_response :: "string \<Rightarrow> response option \<Rightarrow> py_error + json" where
  "check_response endpoint resp =
     (case resp of
        None \<Rightarrow> Inl AttributeError
      | Some r \<Rightarrow>
          if \<not> resp_ok r \<or> \<not> (200 \<le> status_code r \<and> status_code r < 300)
          then Inl (ApiError (''GET '' @ endpoint @ '' '' @ string_of_int (status_code r)))
          else (case json_body r of None \<Rightarrow> Inl JSONDecodeError | Some j \<Rightarrow> Inr j))"

definition p_get ::
  "network \<Rightarrow> client \<Rightarrow> string \<Rightarrow> addr option \<Rightarrow> bool \<Rightarrow> world \<Rightarrow> (py_error + json) \<times> world" where
  "p_get net self endpoint querystring with_envelope w =
     (let (q, w1) = copy_or_empty querystring w;
          w2 = (if with_envelope then dict_set q ''envelope'' (JStr ''true'') w1 else w1);
          req = GET endpoint (heap w2 ! q) (auth_headers self);
          w3 = w2\<lparr>calls := calls w2 @ [req]\<rparr>
      in case net (calls w2) req of
           Raised e \<Rightarrow> (Inl (RequestException e), w3)
         | Returned resp \<Rightarrow> (check_response endpoint resp, w3))"

subsection \<open>Paginator: _get_all\<close>

text \<open>
  One pass through the body of the \<^verbatim>\<open>while True\<close> loop (lines 97 to 110): either the
  loop is left (by \<^verbatim>\<open>break\<close> with the results, or by an exception), or it goes round
  again with the extended results. Line 104 reads \<^verbatim>\<open>response.get('data')\<close> a second time;
  past the test of line 100 the key is present, so it is the value \<open>d\<close> read before.
  The cursor dictionary \<^verbatim>\<open>_querystring\<close> is the dictionary at address \<open>q\<close>.
\<close>

datatype 'a loop_step = Leave "py_error + 'a" | Again 'a

definition get_all_body ::
  "network \<Rightarrow> client \<Rightarrow> string \<Rightarrow> addr \<Rightarrow> json list \<Rightarrow> world \<Rightarrow> json list loop_step \<times> world" where
  "get_all_body net self endpoint q results w =
     (case p_get net self endpoint (Some q) True w of
        (Inl e, w1) \<Rightarrow> (Leave (Inl e), w1)
      | (Inr response, w1) \<Rightarrow>
          (case dict_get response ''data'' (JList []) of
             Inl e \<Rightarrow> (Leave (Inl e), w1)
           | Inr d \<Rightarrow>
               (case py_len d of
                  Inl e \<Rightarrow> (Leave (Inl e), w1)
                | Inr n \<Rightarrow>
                    if n = 0 then (Leave (Inr results), w1)
                    else
                      (case py_iter d of
                         Inl e \<Rightarrow> (Leave (Inl e), w1)
                       | Inr items \<Rightarrow>
                           (case dict_get response ''pagination'' (JObj []) of
                              Inl e \<Rightarrow> (Leave (Inl e), w1)
                            | Inr pagination \<Rightarrow>
                                (case dict_get pagination ''limit'' (JInt 1000) of
                                   Inl e \<Rightarrow> (Leave (Inl e), w1)
                                 | Inr lim \<Rightarrow>
                                     (let w2 = dict_set q ''limit'' lim w1 in
                                      case (map_of (heap w2 ! q) ''offset'', map_of (heap w2 ! q) ''limit'') of
                                        (Some off, Some l) \<Rightarrow>
                                          (case py_add off l of
                                             Inl e \<Rightarrow> (Leave (Inl e), w2)
                                           | Inr off' \<Rightarrow> (Again (results @ items), dict_set q ''offset'' off' w2))
                                      | _ \<Rightarrow> (Leave (Inl KeyError), w2))))))))"

partial_function (option) get_all_loop ::
  "network \<Rightarrow> client \<Rightarrow> string \<Rightarrow> addr \<Rightarrow> json list \<Rightarrow> world \<Rightarrow> ((py_error + json list) \<times> world) option" where
  "get_all_loop net self endpoint q results w =
     (case get_all_body net self endpoint q results w of
        (Leave r, w') \<Rightarrow> Some (r, w')
      | (Again results', w') \<Rightarrow> get_all_loop net self endpoint q results' w')"

definition p_get_all ::
  "network \<Rightarrow> client \<Rightarrow> string \<Rightarrow> addr option \<Rightarrow> world \<Rightarrow> ((py_error + json list) \<times> world) option" where
  "p_get_all net self endpoint querystring w =
     (let (q, w1) = copy_or_empty querystring w;
          w2 = dict_set q ''limit'' (JInt 1000) w1;
          w3 = dict_set q ''offset'' (JInt 0) w2
      in get_all_loop net self endpoint q [] w3)"

subsection \<open>Identifier guards\<close>

text \<open>
  The guards read the name of the calling method from the stack: \<^verbatim>\<open>sys.getframe\<close> does
  not exist, the \<^verbatim>\<open>AttributeError\<close> is caught and \<^verbatim>\<open>inspect.stack()[1][3]\<close> gives the
  name. In the model each method passes its own name.
\<close>

definition p_verify_project_id_exists :: "client \<Rightarrow> string \<Rightarrow> py_error + unit" where
  "p_verify_project_id_exists self caller_name =
     (if \<not> truthy (project_id self)
      then Inl (ApiError (''Project ID not set on API connection and is required by '' @ caller_name @ ''().''))
      else Inr ())"

definition p_verify_account_id_exists :: "client \<Rightarrow> string \<Rightarrow> py_error + unit" where
  "p_verify_account_id_exists self caller_name =
     (if \<not> truthy (account_id self)
      then Inl (ApiError (''Account ID not set on API connection and is required by '' @ caller_name @ ''().''))
      else Inr ())"

subsection \<open>Public methods\<close>

text \<open>Reading an attribute that \<^verbatim>\<open>__init__\<close> did not set raises \<^verbatim>\<open>AttributeError\<close>.\<close>

definition get_stories_by_filter ::
  "network \<Rightarrow> client \<Rightarrow> json \<Rightarrow> world \<Rightarrow> ((py_error + json list) \<times> world) option" where
  "get_stories_by_filter net self pivotal_filter w =
     (case p_verify_project_id_exists self ''get_stories_by_filter'' of
        Inl e \<Rightarrow> Some (Inl e, w)
      | Inr _ \<Rightarrow>
          (let (filt, w1) = alloc (heap w ! api_filter self) w;
               w2 = dict_set filt ''filter'' pivotal_filter w1
           in case api_stories self of
                None \<Rightarrow> Some (Inl AttributeError, w2)
              | Some uri \<Rightarrow> p_get_all net self uri (Some filt) w2))"

definition get_stories_by_label ::
  "(json \<Rightarrow> string) \<Rightarrow> network \<Rightarrow> client \<Rightarrow> json \<Rightarrow> world \<Rightarrow> ((py_error + json list) \<times> world) option" where
  "get_stories_by_label py_repr net self label w =
     (case p_verify_project_id_exists self ''get_stories_by_label'' of
        Inl e \<Rightarrow> Some (Inl e, w)
      | Inr _ \<Rightarrow>
          (let (filt, w1) = alloc [(''filter'', JStr (''label:\"'' @ py_str py_repr label @ ''\"''))] w
           in case api_stories self of
                None \<Rightarrow> Some (Inl AttributeError, w1)
              | Some uri \<Rightarrow> p_get_all net self uri (Some filt) w1))"

definition get_story_activities ::
  "(json \<Rightarrow> string) \<Rightarrow> network \<Rightarrow> client \<Rightarrow> json \<Rightarrow> world \<Rightarrow> (py_error + json) \<times> world" where
  "get_story_activities py_repr net self story_id w =
     (case p_verify_project_id_exists self ''get_story_activities'' of
        Inl e \<Rightarrow> (Inl e, w)
      | Inr _ \<Rightarrow>
          (case api_activity self of
             None \<Rightarrow> (Inl AttributeError, w)
           | Some t \<Rightarrow> p_get net self (format1 py_repr t story_id) None False w))"

definition get_project_memberships :: "network \<Rightarrow> client \<Rightarrow> world \<Rightarrow> (py_error + json) \<times> world" where
  "get_project_memberships net self w =
     (case p_verify_project_id_exists self ''get_project_memberships'' of
        Inl e \<Rightarrow> (Inl e, w)
      | Inr _ \<Rightarrow>
          (case api_project_memberships self of
             None \<Rightarrow> (Inl AttributeError, w)
           | Some uri \<Rightarrow> p_get net self uri None False w))"

definition get_account_memberships :: "network \<Rightarrow> client \<Rightarrow> world \<Rightarrow> (py_error + json) \<times> world" where
  "get_account_memberships net self w =
     (case p_verify_account_id_exists self ''get_account_memberships'' of
        Inl e \<Rightarrow> (Inl e, w)
      | Inr _ \<Rightarrow>
          (case api_account_memberships self of
             None \<Rightarrow> (Inl AttributeError, w)
           | Some uri \<Rightarrow> p_get net self uri None False w))"

definition get_integrations :: "network \<Rightarrow> client \<Rightarrow> world \<Rightarrow> (py_error + json) \<times> world" where
  "get_integrations net self w =
     (case p_verify_project_id_exists self ''get_integrations'' of
        Inl e \<Rightarrow> (Inl e, w)
      | Inr _ \<Rightarrow>
          (case api_integrations self of
             None \<Rightarrow> (Inl AttributeError, w)
           | Some uri \<Rightarrow> p_get net self uri None False w))"

definition get_integration ::
  "(json \<Rightarrow> string) \<Rightarrow> network \<Rightarrow> client \<Rightarrow> json \<Rightarrow> world \<Rightarrow> (py_error + json) \<times> world" where
  "get_integration py_repr net self integration_id w =
     (case p_verify_project_id_exists self ''get_integration'' of
        Inl e \<Rightarrow> (Inl e, w)
      | Inr _ \<Rightarrow>
          (case api_integration self of
             None \<Rightarrow> (Inl AttributeError, w)
           | Some t \<Rightarrow> p_get net self (format1 py_repr t integration_id) None False w))"

definition get_integration_stories ::
  "(json \<Rightarrow> string) \<Rightarrow> network \<Rightarrow> client \<Rightarrow> json \<Rightarrow> world \<Rightarrow> (py_error + json) \<times> world" where
  "get_integration_stories py_repr net self integration_id w =
     (case p_verify_project_id_exists self ''get_integration_stories'' of
        Inl e \<Rightarrow> (Inl e, w)
      | Inr _ \<Rightarrow>
          (let (querystring, w1) = alloc [(''exclude_linked'', JStr ''true'')] w
           in case api_integration_stories self of
                None \<Rightarrow> (Inl AttributeError, w1)
              | Some t \<Rightarrow> p_get net self (format1 py_repr t integration_id) (Some querystring) False w1))"

text \<open>The \<^verbatim>\<open>for integration in integrations\<close> loop of \<^verbatim>\<open>get_all_integration_stories\<close>.\<close>

fun integration_stories_loop ::
  "(json \<Rightarrow> string) \<Rightarrow> network \<Rightarrow> client \<Rightarrow> json list \<Rightarrow> json list \<Rightarrow> world \<Rightarrow> (py_error + json list) \<times> world" where
  "integration_stories_loop py_repr net self [] results w = (Inr results, w)"
| "integration_stories_loop py_repr net self (integration # rest) results w =
     (case dict_get integration ''id'' JNull of
        Inl e \<Rightarrow> (Inl e, w)
      | Inr i \<Rightarrow>
          (case get_integration_stories py_repr net self i w of
             (Inl e, w1) \<Rightarrow> (Inl e, w1)
           | (Inr integration_stories, w1) \<Rightarrow>
               (case py_iter integration_stories of
                  Inl e \<Rightarrow> (Inl e, w1)
                | Inr items \<Rightarrow> integration_stories_loop py_repr net self rest (results @ items) w1)))"

definition get_all_integration_stories ::
  "(json \<Rightarrow> string) \<Rightarrow> network \<Rightarrow> client \<Rightarrow> world \<Rightarrow> (py_error + json list) \<times> world" where
  "get_all_integration_stories py_repr net self w =
     (case get_integrations net self w of
        (Inl e, w1) \<Rightarrow> (Inl e, w1)
      | (Inr integrations, w1) \<Rightarrow>
          (case py_iter integrations of
             Inl e \<Rightarrow> (Inl e, w1)
           | Inr items \<Rightarrow> integration_stories_loop py_repr net self items [] w1))"

subsection \<open>Observing a run\<close>

text \<open>
  A query parameter of a logged request, and the requests a call added to the log
  (the call started in world \<open>w\<close> and ended in \<open>w'\<close>).
\<close>

definition param :: "request \<Rightarrow> string \<Rightarrow> json option" where
  "param r k = map_of (req_params r) k"

definition issued :: "world \<Rightarrow> world \<Rightarrow> request list" where
  "issued w w' = drop (length (calls w)) (calls w')"

text \<open>The request log and the value of a finished paginated call; nothing for a run that never returns.\<close>

fun run_calls :: "('a \<times> world) option \<Rightarrow> request list" where
  "run_calls None = []"
| "run_calls (Some (r, w')) = calls w'"

fun run_value :: "('a \<times> world) option \<Rightarrow> 'a option" where
  "run_value None = None"
| "run_value (Some (r, w')) = Some r"

text \<open>The requests a paginated call added to the log, and the heap it left, when it returned.\<close>

definition run_issued :: "world \<Rightarrow> ('a \<times> world) option \<Rightarrow> request list" where
  "run_issued w x = drop (length (calls w)) (run_calls x)"

fun run_heap :: "('a \<times> world) option \<Rightarrow> dict list" where
  "run_heap None = []"
| "run_heap (Some (r, w')) = heap w'"

text \<open>The \<^verbatim>\<open>limit\<close> and \<^verbatim>\<open>offset\<close> parameters of a list of requests.\<close>

definition limits_sent :: "request list \<Rightarrow> json option list" where
  "limits_sent rs = map (\<lambda>r. param r ''limit'') rs"

definition offsets_sent :: "request list \<Rightarrow> json option list" where
  "offsets_sent rs = map (\<lambda>r. param r ''offset'') rs"

text \<open>
  The request \<^verbatim>\<open>_get_all\<close> sends when its cursor dictionary holds \<open>d\<close>, and what
  \<^verbatim>\<open>_get\<close> makes of the library's answer to a request.
\<close>

definition cursor_request :: "client \<Rightarrow> string \<Rightarrow> dict \<Rightarrow> request" where
  "cursor_request self endpoint d =
     GET endpoint (AList.update ''envelope'' (JStr ''true'') d) (auth_headers self)"

definition fetch_result :: "network \<Rightarrow> string \<Rightarrow> request list \<Rightarrow> request \<Rightarrow> py_error + json" where
  "fetch_result net endpoint log req =
     (case net log req of
        Raised e \<Rightarrow> Inl (RequestException e)
      | Returned resp \<Rightarrow> check_response endpoint resp)"

text \<open>
  \<^verbatim>\<open>pagination.limit\<close> of a response body, when the pagination object and its limit
  field are both present.
\<close>

definition pagination_limit :: "json \<Rightarrow> json option" where
  "pagination_limit response =
     (case response of
        JObj kvs \<Rightarrow> (case map_of kvs ''pagination'' of Some (JObj p) \<Rightarrow> map_of p ''limit'' | _ \<Rightarrow> None)
      | _ \<Rightarrow> None)"

text \<open>
  Servers. A body is a page of records when its \<^verbatim>\<open>data\<close> field is a list; its
  pagination is usable when the object is absent or is an object whose limit is absent
  or an integer.
\<close>

definition page_data :: "json \<Rightarrow> json list option" where
  "page_data body = (case dict_get body ''data'' (JList []) of Inr (JList xs) \<Rightarrow> Some xs | _ \<Rightarrow> None)"

definition usable_limit :: "json \<Rightarrow> bool" where
  "usable_limit body =
     (case dict_get body ''pagination'' (JObj []) of
        Inr p \<Rightarrow> (case dict_get p ''limit'' (JInt 1000) of Inr l \<Rightarrow> py_int l \<noteq> None | Inl _ \<Rightarrow> False)
      | Inl _ \<Rightarrow> False)"

definition page_of :: "int \<times> json \<Rightarrow> json list \<Rightarrow> bool" where
  "page_of sb xs =
     (200 \<le> fst sb \<and> fst sb < 300 \<and> page_data (snd sb) = Some xs \<and> xs \<noteq> [] \<and> usable_limit (snd sb))"

definition answer :: "int \<times> json \<Rightarrow> http_outcome" where
  "answer sb = Returned (Some (Response (fst sb) (Some (snd sb))))"

text \<open>
  The requests of one paginated fetch, as the specification describes the cursor: it
  starts at limit 1000 and offset 0 on top of the caller's parameters; after a page
  the limit becomes \<^verbatim>\<open>pagination.limit\<close> of the page, or 1000 when that is absent, and
  the offset grows by that limit. \<open>cursors c bodies\<close> are the cursor dictionaries of the
  requests sent when the pages \<open>bodies\<close> come back one after the other, the first request
  included; \<open>requests_for\<close> are those requests.
\<close>

definition first_cursor :: "dict \<Rightarrow> dict" where
  "first_cursor d = AList.update ''offset'' (JInt 0) (AList.update ''limit'' (JInt 1000) d)"

definition next_cursor :: "dict \<Rightarrow> json \<Rightarrow> dict" where
  "next_cursor c body =
     (let lim = (case pagination_limit body of Some v \<Rightarrow> v | None \<Rightarrow> JInt 1000);
          c1 = AList.update ''limit'' lim c
      in case map_of c1 ''offset'' of
           None \<Rightarrow> c1
         | Some off \<Rightarrow> (case py_add off lim of Inl e \<Rightarrow> c1 | Inr off' \<Rightarrow> AList.update ''offset'' off' c1))"

fun cursors :: "dict \<Rightarrow> json list \<Rightarrow> dict list" where
  "cursors c [] = [c]"
| "cursors c (body # bodies) = c # cursors (next_cursor c body) bodies"

definition requests_for :: "client \<Rightarrow> string \<Rightarrow> dict \<Rightarrow> json list \<Rightarrow> request list" where
  "requests_for self endpoint d bodies = map (cursor_request self endpoint) (cursors (first_cursor d) bodies)"

text \<open>
  The network answers the requests \<open>rs\<close>, sent one after the other on top of the log,
  with the outcomes \<open>outs\<close>: each request is put to the network together with the log
  as it stands when the request is sent. The network may read the request and the log.
\<close>

fun answers :: "network \<Rightarrow> request list \<Rightarrow> request list \<Rightarrow> http_outcome list \<Rightarrow> bool" where
  "answers net log (r # rs) (out # outs) = (net log r = out \<and> answers net (log @ [r]) rs outs)"
| "answers net log [] [] = True"
| "answers net log [] (out # outs) = False"
| "answers net log (r # rs) [] = False"

text \<open>A test double that gives the outcomes \<open>rs\<close> in order, whatever the request.\<close>

definition scripted :: "http_outcome list \<Rightarrow> network" where
  "scripted rs log req = (if length log < length rs then rs ! length log else Raised ''script exhausted'')"

subsection \<open>The stories of all integrations, as the specification words it\<close>

text \<open>
  Following the claim about \<^verbatim>\<open>get_all_integration_stories\<close>, not the code:
  \<^verbatim>\<open>get_integration_stories\<close> is called for each identifier in order, one call after
  the other, and the lists it returns are kept apart; the claim is about their
  concatenation. An error of a call ends the sequence.
\<close>

fun integration_stories_in_order ::
  "(json \<Rightarrow> string) \<Rightarrow> network \<Rightarrow> client \<Rightarrow> json list \<Rightarrow> world \<Rightarrow> (py_error + json list list) \<times> world" where
  "integration_stories_in_order py_repr net self [] w = (Inr [], w)"
| "integration_stories_in_order py_repr net self (i # ids) w =
     (case get_integration_stories py_repr net self i w of
        (Inl e, w1) \<Rightarrow> (Inl e, w1)
      | (Inr stories, w1) \<Rightarrow>
          (case py_iter stories of
             Inl e \<Rightarrow> (Inl e, w1)
           | Inr xs \<Rightarrow>
               (case integration_stories_in_order py_repr net self ids w1 of
                  (Inl e, w2) \<Rightarrow> (Inl e, w2)
                | (Inr xss, w2) \<Rightarrow> (Inr (xs # xss), w2))))"

subsection \<open>Example clients and servers\<close>

text \<open>
  A client with account 7 and project 99, a client with no identifiers, and the world
  right after each constructor ran. \<open>example_repr\<close> stands in for Python's \<^verbatim>\<open>repr\<close>.
\<close>

definition example_repr :: "json \<Rightarrow> string" where
  "example_repr v = ''<object>''"

definition empty_world :: world where
  "empty_world = \<lparr>heap = [], calls = []\<rparr>"

definition example_client :: client where
  "example_client = fst (new_client example_repr ''token'' (JInt 7) (JInt 99) None empty_world)"

definition anonymous_client :: client where
  "anonymous_client = fst (new_client example_repr ''token'' JNull JNull None empty_world)"

definition start_world :: world where
  "start_world = snd (new_client example_repr ''token'' (JInt 7) (JInt 99) None empty_world)"

text \<open>A server that answers 200 with a body that is not JSON, and one that answers 404.\<close>

definition html_server :: network where
  "html_server log req = Returned (Some (Response 200 None))"

definition not_found_server :: network where
  "not_found_server log req = Returned (Some (Response 404 (Some (JObj [(''error'', JStr ''not found'')]))))"

text \<open>
  Enveloped pages for scripted servers: a record, the envelope of the records \<open>xs\<close>
  with \<^verbatim>\<open>pagination.limit\<close> set to \<open>lim\<close> (no pagination object when \<open>lim\<close> is
  \<open>None\<close>), and the 200 answer carrying it.
\<close>

definition story :: "int \<Rightarrow> json" where
  "story n = JObj [(''id'', JInt n)]"

definition envelope :: "json list \<Rightarrow> json option \<Rightarrow> json" where
  "envelope xs lim =
     JObj ((''data'', JList xs) #
       (case lim of None \<Rightarrow> [] | Some l \<Rightarrow> [(''pagination'', JObj [(''limit'', l)])]))"

definition page :: "json list \<Rightarrow> json option \<Rightarrow> http_outcome" where
  "page xs lim = answer (200, envelope xs lim)"

text \<open>
  Scripted answers: the scenario of the specification (pages of two, one and no
  records), an empty first page, a server that stops sending the pagination object, a
  server that reports a negative limit, and pages shorter than the reported limit.
\<close>

definition scenario_script :: "http_outcome list" where
  "scenario_script =
     [page [story 1, story 2] (Some (JInt 2)), page [story 3] (Some (JInt 2)), page [] (Some (JInt 2))]"

definition empty_script :: "http_outcome list" where
  "empty_script = [page [] (Some (JInt 2))]"

definition defaulting_script :: "http_outcome list" where
  "defaulting_script = [page [story 1] (Some (JInt 2)), page [story 2] None, page [] None]"

definition negative_limit_script :: "http_outcome list" where
  "negative_limit_script = [page [story 1] (Some (JInt (- 5))), page [] None]"

definition short_pages_script :: "http_outcome list" where
  "short_pages_script =
     [page [story 1] (Some (JInt 2)), page [story 2] (Some (JInt 2)), page [] (Some (JInt 2))]"

text \<open>One good page, then a 200 answer whose body is not JSON.\<close>

definition non_json_script :: "http_outcome list" where
  "non_json_script = [page [story 1, story 2] (Some (JInt 2)), Returned (Some (Response 200 None))]"

text \<open>
  A server that reads the cursor: it holds \<open>records\<close>, never serves more than \<open>cap\<close> of
  them in a page, and answers a request for \<^verbatim>\<open>limit\<close> records from \<^verbatim>\<open>offset\<close> on with the
  records there are, reporting the limit it applied.
\<close>

definition paging_server :: "json list \<Rightarrow> nat \<Rightarrow> network" where
  "paging_server records cap log req =
     (case (param req ''offset'', param req ''limit'') of
        (Some (JInt off), Some (JInt lim)) \<Rightarrow>
          page (take (min (nat lim) cap) (drop (nat off) records)) (Some (JInt (int (min (nat lim) cap))))
      | _ \<Rightarrow> Returned (Some (Response 400 None)))"

text \<open>
  The paging server over three records with pages of two, down after its first answer:
  every later request gets a 404 with a JSON error body.
\<close>

definition outage_server :: network where
  "outage_server log req =
     (if log = [] then paging_server [story 1, story 2, story 3] 2 log req
      else Returned (Some (Response 404 (Some (JObj [(''error'', JStr ''not found'')])))))"

text \<open>
  A world in which a caller owns a querystring dictionary, at address 1; it has a
  \<^verbatim>\<open>limit\<close> key of its own.
\<close>

definition caller_world :: world where
  "caller_world = snd (alloc [(''filter'', JStr ''state:started''), (''limit'', JInt 5)] start_world)"

text \<open>A server that answers every request with an empty JSON list.\<close>

definition empty_list_server :: network where
  "empty_list_server log req = Returned (Some (Response 200 (Some (JList []))))"

text \<open>
  A server with two integrations, 1 and 2, holding two stories and one story, and the
  world after \<^verbatim>\<open>get_integrations\<close> ran against it.
\<close>

definition integration_script :: "http_outcome list" where
  "integration_script =
     [answer (200, JList [story 1, story 2]),
      answer (200, JList [story 10, story 11]),
      answer (200, JList [story 20])]"

definition after_integrations :: world where
  "after_integrations = snd (get_integrations (scripted integration_script) example_client start_world)"

section \<open>Basic facts\<close>

subsection \<open>What one GET does\<close>

lemma p_get_eq:
  "p_get net self E qs env w =
    (let d = (case qs of None \<Rightarrow> [] | Some a \<Rightarrow> heap w ! a);
         d' = (if env then AList.update ''envelope'' (JStr ''true'') d else d);
         req = GET E d' (auth_headers self)
     in (fetch_result net E (calls w) req,
         w\<lparr>heap := heap w @ [d'], calls := calls w @ [req]\<rparr>))"
  by (auto simp: p_get_def fetch_result_def copy_or_empty_def alloc_def dict_set_def Let_def split: option.splits http_outcome.splits)

lemma p_get_cursor:
  "p_get net self E (Some q) True w =
     (fetch_result net E (calls w) (cursor_request self E (heap w ! q)),
      w\<lparr>heap := heap w @ [req_params (cursor_request self E (heap w ! q))],
        calls := calls w @ [cursor_request self E (heap w ! q)]\<rparr>)"
  by (simp add: p_get_eq cursor_request_def Let_def)

lemma py_len_iter: "py_len d = Inr n \<Longrightarrow> py_iter d = Inr xs \<Longrightarrow> length xs = n"
  by (cases d) auto

lemma updated_limit:
  "dict_get response ''pagination'' (JObj []) = Inr p \<Longrightarrow> dict_get p ''limit'' (JInt 1000) = Inr lim \<Longrightarrow>
   lim = (case pagination_limit response of Some l \<Rightarrow> l | None \<Rightarrow> JInt 1000)"
  by (cases response; cases p) (auto simp: pagination_limit_def split: option.splits json.splits)

lemma py_add_int: "py_add (JInt a) l = Inr x \<Longrightarrow> \<exists>n. py_int l = Some n \<and> x = JInt (a + n)"
  by (cases l) (auto split: if_splits)

lemma body_Again:
  assumes "get_all_body net self E q results w = (Again results', w')" and "q < length (heap w)"
  shows "\<exists>response d items pagination lim off off'.
     fetch_result net E (calls w) (cursor_request self E (heap w ! q)) = Inr response \<and>
     dict_get response ''data'' (JList []) = Inr d \<and> py_iter d = Inr items \<and> items \<noteq> [] \<and>
     results' = results @ items \<and>
     dict_get response ''pagination'' (JObj []) = Inr pagination \<and>
     dict_get pagination ''limit'' (JInt 1000) = Inr lim \<and>
     map_of (heap w ! q) ''offset'' = Some off \<and> py_add off lim = Inr off' \<and>
     heap w' = (heap w)[q := AList.update ''offset'' off' (AList.update ''limit'' lim (heap w ! q))]
                 @ [req_params (cursor_request self E (heap w ! q))] \<and>
     calls w' = calls w @ [cursor_request self E (heap w ! q)]"
  using assms
  apply (simp add: get_all_body_def p_get_cursor dict_set_def Let_def split: sum.splits if_splits option.splits prod.splits)
  apply (auto simp: nth_append list_update_append1 update_conv' dest: py_len_iter)
  done

lemma body_frame:
  assumes "get_all_body net self E q results w = (x, w')" and "q < length (heap w)"
  shows "calls w' = calls w @ [cursor_request self E (heap w ! q)] \<and>
         length (heap w') = Suc (length (heap w)) \<and>
         (\<forall>a<length (heap w). a \<noteq> q \<longrightarrow> heap w' ! a = heap w ! a) \<and>
         (\<forall>k. k \<noteq> ''limit'' \<and> k \<noteq> ''offset'' \<longrightarrow> map_of (heap w' ! q) k = map_of (heap w ! q) k)"
  using assms
  apply (simp add: get_all_body_def p_get_cursor dict_set_def Let_def split: sum.splits if_splits option.splits prod.splits)
  apply (auto simp: nth_append list_update_append1 update_conv')
  done

subsection \<open>Induction over the pagination loop\<close>

text \<open>
  A property of a run of the loop that returns follows from the two ways its body ends:
  leaving the loop, and going round again.
\<close>

lemma loop_induct [consumes 1, case_names Leave Again]:
  assumes run: "get_all_loop net self E q results w = Some y"
    and leave: "\<And>results w r w'. get_all_body net self E q results w = (Leave r, w') \<Longrightarrow> P results w (r, w')"
    and again: "\<And>results w results' w1 y.
        get_all_body net self E q results w = (Again results', w1) \<Longrightarrow> P results' w1 y \<Longrightarrow> P results w y"
  shows "P results w y"
proof -
  have "net = net \<and> self = self \<and> E = E \<and> q = q \<longrightarrow> P results w y"
  proof (rule get_all_loop.raw_induct [where P = "\<lambda>net' self' E' q' results w y.
           net' = net \<and> self' = self \<and> E' = E \<and> q' = q \<longrightarrow> P results w y", OF _ run])
    fix loop net' self' E' q' results w y
    assume IH: "\<And>self'' E'' q'' results w b y. loop self'' E'' q'' results w b = Some y \<Longrightarrow>
           self'' = net \<and> E'' = self \<and> q'' = E \<and> results = q \<longrightarrow> P w b y"
      and step: "(case get_all_body net' self' E' q' results w of
                    (Leave r, w') \<Rightarrow> Some (r, w')
                  | (Again results', w') \<Rightarrow> loop net' self' E' q' results' w') = Some y"
    show "net' = net \<and> self' = self \<and> E' = E \<and> q' = q \<longrightarrow> P results w y"
    proof
      assume eq: "net' = net \<and> self' = self \<and> E' = E \<and> q' = q"
      obtain x w1 where b: "get_all_body net self E q results w = (x, w1)"
        by (cases "get_all_body net self E q results w")
      show "P results w y"
      proof (cases x)
        case (Leave r)
        with b step eq have "y = (r, w1)" by simp
        with leave b Leave show ?thesis by simp
      next
        case (Again results')
        with b step eq have "loop net self E q results' w1 = Some y" by simp
        from IH [OF this] have "P results' w1 y" by simp
        with again b Again show ?thesis by blast
      qed
    qed
  qed
  then show ?thesis by simp
qed

lemma loop_frame:
  assumes "get_all_loop net self E q results w = Some y" and "q < length (heap w)"
  shows "length (heap w) \<le> length (heap (snd y)) \<and>
         (\<forall>a<length (heap w). a \<noteq> q \<longrightarrow> heap (snd y) ! a = heap w ! a) \<and>
         (\<forall>k. k \<noteq> ''limit'' \<and> k \<noteq> ''offset'' \<longrightarrow> map_of (heap (snd y) ! q) k = map_of (heap w ! q) k)"
  using assms
proof (induct rule: loop_induct)
  case (Leave results w r w')
  from body_frame [OF Leave(1) Leave(2)] show ?case by simp
next
  case (Again results w results' w1 y)
  note f = body_frame [OF Again(1) Again(3)]
  then have q1: "q < length (heap w1)" using Again(3) by simp
  note ih = Again(2) [OF q1]
  from f have len: "length (heap w1) = Suc (length (heap w))" by blast
  from f have same: "\<And>a. a < length (heap w) \<Longrightarrow> a \<noteq> q \<Longrightarrow> heap w1 ! a = heap w ! a" by blast
  from f have keys: "\<And>k. k \<noteq> ''limit'' \<Longrightarrow> k \<noteq> ''offset'' \<Longrightarrow> map_of (heap w1 ! q) k = map_of (heap w ! q) k" by blast
  from ih len have "length (heap w) \<le> length (heap (snd y))" by linarith
  moreover have "\<forall>a<length (heap w). a \<noteq> q \<longrightarrow> heap (snd y) ! a = heap w ! a"
  proof (intro allI impI)
    fix a assume a: "a < length (heap w)" "a \<noteq> q"
    with len have "a < length (heap w1)" by simp
    with ih a have "heap (snd y) ! a = heap w1 ! a" by blast
    with same a show "heap (snd y) ! a = heap w ! a" by simp
  qed
  moreover have "\<forall>k. k \<noteq> ''limit'' \<and> k \<noteq> ''offset'' \<longrightarrow> map_of (heap (snd y) ! q) k = map_of (heap w ! q) k"
    using ih keys by metis
  ultimately show ?case by blast
qed

lemma param_cursor_request:
  "param (cursor_request self E d) k = (if k = ''envelope'' then Some (JStr ''true'') else map_of d k)"
  by (simp add: param_def cursor_request_def update_conv')

lemma cursor_request_sel:
  "req_endpoint (cursor_request self E d) = E" "req_headers (cursor_request self E d) = auth_headers self"
  by (simp_all add: cursor_request_def)

lemma body_Again_cursor:
  assumes "get_all_body net self E q results w = (Again results', w')" and "q < length (heap w)"
  shows "\<exists>response lim off off'.
     fetch_result net E (calls w) (cursor_request self E (heap w ! q)) = Inr response \<and>
     lim = (case pagination_limit response of Some l \<Rightarrow> l | None \<Rightarrow> JInt 1000) \<and>
     map_of (heap w ! q) ''offset'' = Some off \<and> py_add off lim = Inr off' \<and>
     heap w' ! q = AList.update ''offset'' off' (AList.update ''limit'' lim (heap w ! q))"
proof -
  from body_Again [OF assms] obtain response d items pagination lim off off' where
    *: "fetch_result net E (calls w) (cursor_request self E (heap w ! q)) = Inr response"
       "dict_get response ''pagination'' (JObj []) = Inr pagination"
       "dict_get pagination ''limit'' (JInt 1000) = Inr lim"
       "map_of (heap w ! q) ''offset'' = Some off" "py_add off lim = Inr off'"
       "heap w' = (heap w)[q := AList.update ''offset'' off' (AList.update ''limit'' lim (heap w ! q))]
                 @ [req_params (cursor_request self E (heap w ! q))]"
    by blast
  from *(6) assms(2) have "heap w' ! q = AList.update ''offset'' off' (AList.update ''limit'' lim (heap w ! q))"
    by (simp add: nth_append)
  with * updated_limit [OF *(2) *(3)] show ?thesis by blast
qed

lemma loop_requests:
  assumes "get_all_loop net self E q results w = Some y" and "q < length (heap w)"
    and "map_of (heap w ! q) ''limit'' \<noteq> None \<and> map_of (heap w ! q) ''offset'' \<noteq> None"
  shows "\<exists>new. calls (snd y) = calls w @ new \<and> new \<noteq> [] \<and> hd new = cursor_request self E (heap w ! q) \<and>
           (\<forall>x\<in>set new. req_endpoint x = E \<and> req_headers x = auth_headers self \<and>
              param x ''envelope'' = Some (JStr ''true'') \<and>
              param x ''limit'' \<noteq> None \<and> param x ''offset'' \<noteq> None \<and>
              (\<forall>k. k \<noteq> ''limit'' \<and> k \<noteq> ''offset'' \<and> k \<noteq> ''envelope'' \<longrightarrow> param x k = map_of (heap w ! q) k))"
  using assms
proof (induct rule: loop_induct)
  case (Leave results w r w')
  from body_frame [OF Leave(1) Leave(2)]
  have "calls w' = calls w @ [cursor_request self E (heap w ! q)]" by blast
  with Leave(3) show ?case by (simp add: param_cursor_request cursor_request_sel)
next
  case (Again results w results' w1 y)
  note f = body_frame [OF Again(1) Again(3)]
  then have q1: "q < length (heap w1)" using Again(3) by simp
  from body_Again_cursor [OF Again(1) Again(3)]
  have inv: "map_of (heap w1 ! q) ''limit'' \<noteq> None \<and> map_of (heap w1 ! q) ''offset'' \<noteq> None"
    by (auto simp: update_conv')
  from Again(2) [OF q1 inv] obtain new where new: "calls (snd y) = calls w1 @ new" "new \<noteq> []"
      "hd new = cursor_request self E (heap w1 ! q)"
      "\<forall>x\<in>set new. req_endpoint x = E \<and> req_headers x = auth_headers self \<and>
              param x ''envelope'' = Some (JStr ''true'') \<and>
              param x ''limit'' \<noteq> None \<and> param x ''offset'' \<noteq> None \<and>
              (\<forall>k. k \<noteq> ''limit'' \<and> k \<noteq> ''offset'' \<and> k \<noteq> ''envelope'' \<longrightarrow> param x k = map_of (heap w1 ! q) k)"
    by blast
  from f have c: "calls w1 = calls w @ [cursor_request self E (heap w ! q)]" by blast
  from f have keys: "\<And>k. k \<noteq> ''limit'' \<Longrightarrow> k \<noteq> ''offset'' \<Longrightarrow> map_of (heap w1 ! q) k = map_of (heap w ! q) k" by blast
  let ?new = "cursor_request self E (heap w ! q) # new"
  have "calls (snd y) = calls w @ ?new" using new(1) c by simp
  moreover have "\<forall>x\<in>set ?new. req_endpoint x = E \<and> req_headers x = auth_headers self \<and>
              param x ''envelope'' = Some (JStr ''true'') \<and>
              param x ''limit'' \<noteq> None \<and> param x ''offset'' \<noteq> None \<and>
              (\<forall>k. k \<noteq> ''limit'' \<and> k \<noteq> ''offset'' \<and> k \<noteq> ''envelope'' \<longrightarrow> param x k = map_of (heap w ! q) k)"
    using new(4) keys Again(4) by (simp add: param_cursor_request cursor_request_sel)
  ultimately show ?case by (intro exI [of _ ?new]) simp
qed

text \<open>
  Consecutive requests of one run: the limit sent next is the one read from the answer,
  and the offset sent next is the previous offset plus that limit.
\<close>

lemma loop_chain:
  assumes "get_all_loop net self E q results w = Some y" and "q < length (heap w)"
    and "map_of (heap w ! q) ''offset'' = Some (JInt off)"
    and "map_of (heap w ! q) ''limit'' \<noteq> None"
  shows "\<exists>new. calls (snd y) = calls w @ new \<and> new \<noteq> [] \<and> hd new = cursor_request self E (heap w ! q) \<and>
          (\<forall>i. Suc i < length new \<longrightarrow>
             (\<exists>body a l. fetch_result net E (calls w @ take i new) (new ! i) = Inr body \<and>
                param (new ! Suc i) ''limit'' = Some (case pagination_limit body of Some v \<Rightarrow> v | None \<Rightarrow> JInt 1000) \<and>
                py_int (case pagination_limit body of Some v \<Rightarrow> v | None \<Rightarrow> JInt 1000) = Some l \<and>
                param (new ! i) ''offset'' = Some (JInt a) \<and>
                param (new ! Suc i) ''offset'' = Some (JInt (a + l))))"
  using assms
proof (induct arbitrary: off rule: loop_induct)
  case (Leave results w r w')
  from body_frame [OF Leave(1) Leave(2)]
  have "calls w' = calls w @ [cursor_request self E (heap w ! q)]" by blast
  then show ?case by simp
next
  case (Again results w results' w1 y)
  note f = body_frame [OF Again(1) Again(3)]
  then have q1: "q < length (heap w1)" using Again(3) by simp
  from f have c: "calls w1 = calls w @ [cursor_request self E (heap w ! q)]" by blast
  from body_Again_cursor [OF Again(1) Again(3)] obtain response lim off0 off' where
    b: "fetch_result net E (calls w) (cursor_request self E (heap w ! q)) = Inr response"
       "lim = (case pagination_limit response of Some l \<Rightarrow> l | None \<Rightarrow> JInt 1000)"
       "map_of (heap w ! q) ''offset'' = Some off0" "py_add off0 lim = Inr off'"
       "heap w1 ! q = AList.update ''offset'' off' (AList.update ''limit'' lim (heap w ! q))"
    by blast
  from b(3) Again(4) have "off0 = JInt off" by simp
  with b(4) py_add_int obtain l where l: "py_int lim = Some l" "off' = JInt (off + l)" by blast
  from b(5) l have o1: "map_of (heap w1 ! q) ''offset'' = Some (JInt (off + l))"
    and l1: "map_of (heap w1 ! q) ''limit'' = Some lim"
    by (simp_all add: update_conv')
  from l1 have l1': "map_of (heap w1 ! q) ''limit'' \<noteq> None" by simp
  from Again(2) [OF q1 o1 l1'] obtain new where new: "calls (snd y) = calls w1 @ new" "new \<noteq> []"
      "hd new = cursor_request self E (heap w1 ! q)"
      "\<forall>i. Suc i < length new \<longrightarrow>
             (\<exists>body a l. fetch_result net E (calls w1 @ take i new) (new ! i) = Inr body \<and>
                param (new ! Suc i) ''limit'' = Some (case pagination_limit body of Some v \<Rightarrow> v | None \<Rightarrow> JInt 1000) \<and>
                py_int (case pagination_limit body of Some v \<Rightarrow> v | None \<Rightarrow> JInt 1000) = Some l \<and>
                param (new ! i) ''offset'' = Some (JInt a) \<and>
                param (new ! Suc i) ''offset'' = Some (JInt (a + l)))"
    by blast
  let ?r = "cursor_request self E (heap w ! q)"
  let ?new = "?r # new"
  have 1: "calls (snd y) = calls w @ ?new" using new(1) c by simp
  have 2: "\<forall>i. Suc i < length ?new \<longrightarrow>
             (\<exists>body a l. fetch_result net E (calls w @ take i ?new) (?new ! i) = Inr body \<and>
                param (?new ! Suc i) ''limit'' = Some (case pagination_limit body of Some v \<Rightarrow> v | None \<Rightarrow> JInt 1000) \<and>
                py_int (case pagination_limit body of Some v \<Rightarrow> v | None \<Rightarrow> JInt 1000) = Some l \<and>
                param (?new ! i) ''offset'' = Some (JInt a) \<and>
                param (?new ! Suc i) ''offset'' = Some (JInt (a + l)))"
  proof (intro allI impI)
    fix i assume i: "Suc i < length ?new"
    show "\<exists>body a l. fetch_result net E (calls w @ take i ?new) (?new ! i) = Inr body \<and>
                param (?new ! Suc i) ''limit'' = Some (case pagination_limit body of Some v \<Rightarrow> v | None \<Rightarrow> JInt 1000) \<and>
                py_int (case pagination_limit body of Some v \<Rightarrow> v | None \<Rightarrow> JInt 1000) = Some l \<and>
                param (?new ! i) ''offset'' = Some (JInt a) \<and>
                param (?new ! Suc i) ''offset'' = Some (JInt (a + l))"
    proof (cases i)
      case 0
      from new(2,3) have h: "new ! 0 = cursor_request self E (heap w1 ! q)" by (simp add: hd_conv_nth)
      have "param (new ! 0) ''limit'' = Some lim" "param (new ! 0) ''offset'' = Some (JInt (off + l))"
        using h l1 o1 by (simp_all add: param_cursor_request)
      moreover have "param ?r ''offset'' = Some (JInt off)"
        using Again(4) by (simp add: param_cursor_request)
      ultimately show ?thesis using 0 b(1,2) l(1) by simp
    next
      case (Suc j)
      with i have "Suc j < length new" by simp
      with new(4) obtain body a l' where
        "fetch_result net E (calls w1 @ take j new) (new ! j) = Inr body"
        "param (new ! Suc j) ''limit'' = Some (case pagination_limit body of Some v \<Rightarrow> v | None \<Rightarrow> JInt 1000)"
        "py_int (case pagination_limit body of Some v \<Rightarrow> v | None \<Rightarrow> JInt 1000) = Some l'"
        "param (new ! j) ''offset'' = Some (JInt a)"
        "param (new ! Suc j) ''offset'' = Some (JInt (a + l'))"
        by blast
      then show ?thesis using Suc c by auto
    qed
  qed
  from 1 2 show ?case by (intro exI [of _ ?new]) simp
qed

lemma p_get_all_eq:
  "p_get_all net self E qs w =
     get_all_loop net self E (length (heap w)) []
       (w\<lparr>heap := heap w @ [AList.update ''offset'' (JInt 0) (AList.update ''limit'' (JInt 1000)
                   (case qs of None \<Rightarrow> [] | Some a \<Rightarrow> heap w ! a))]\<rparr>)"
  by (auto simp: p_get_all_def copy_or_empty_def alloc_def dict_set_def Let_def split: option.splits)

text \<open>The loop equation is the code equation: closed runs are evaluated with it.\<close>

declare get_all_loop.simps [code]

lemma run_issued_Some: "run_issued w (Some y) = issued w (snd y)"
  by (cases y) (simp add: run_issued_def issued_def)

lemma run_heap_Some: "run_heap (Some y) = heap (snd y)"
  by (cases y) simp

text \<open>The whole paginated call, from the copy of the querystring on.\<close>

lemma get_all_run:
  assumes "p_get_all net self E qs w = Some y"
  shows "\<exists>new. calls (snd y) = calls w @ new \<and> new \<noteq> [] \<and>
          param (hd new) ''offset'' = Some (JInt 0) \<and> param (hd new) ''limit'' = Some (JInt 1000) \<and>
          (\<forall>x\<in>set new. req_endpoint x = E \<and> req_headers x = auth_headers self \<and>
              param x ''envelope'' = Some (JStr ''true'') \<and>
              param x ''limit'' \<noteq> None \<and> param x ''offset'' \<noteq> None \<and>
              (\<forall>k. k \<noteq> ''limit'' \<and> k \<noteq> ''offset'' \<and> k \<noteq> ''envelope'' \<longrightarrow>
                 param x k = map_of (case qs of None \<Rightarrow> [] | Some a \<Rightarrow> heap w ! a) k)) \<and>
          (\<forall>i. Suc i < length new \<longrightarrow>
             (\<exists>body a l. fetch_result net E (calls w @ take i new) (new ! i) = Inr body \<and>
                param (new ! Suc i) ''limit'' = Some (case pagination_limit body of Some v \<Rightarrow> v | None \<Rightarrow> JInt 1000) \<and>
                py_int (case pagination_limit body of Some v \<Rightarrow> v | None \<Rightarrow> JInt 1000) = Some l \<and>
                param (new ! i) ''offset'' = Some (JInt a) \<and>
                param (new ! Suc i) ''offset'' = Some (JInt (a + l)))) \<and>
          length (heap w) \<le> length (heap (snd y)) \<and>
          (\<forall>a<length (heap w). heap (snd y) ! a = heap w ! a)"
proof -
  let ?d = "case qs of None \<Rightarrow> [] | Some a \<Rightarrow> heap w ! a"
  let ?c = "AList.update ''offset'' (JInt 0) (AList.update ''limit'' (JInt 1000) ?d)"
  let ?w = "w\<lparr>heap := heap w @ [?c]\<rparr>"
  let ?q = "length (heap w)"
  from assms have run: "get_all_loop net self E ?q [] ?w = Some y" by (simp add: p_get_all_eq)
  have q: "?q < length (heap ?w)" by simp
  have c: "heap ?w ! ?q = ?c" by simp
  have off: "map_of (heap ?w ! ?q) ''offset'' = Some (JInt 0)" by (simp add: update_conv')
  have lim: "map_of (heap ?w ! ?q) ''limit'' \<noteq> None" by (simp add: update_conv')
  have both: "map_of (heap ?w ! ?q) ''limit'' \<noteq> None \<and> map_of (heap ?w ! ?q) ''offset'' \<noteq> None"
    by (simp add: update_conv')
  from loop_requests [OF run q both] obtain new where new: "calls (snd y) = calls ?w @ new" "new \<noteq> []"
     "hd new = cursor_request self E (heap ?w ! ?q)"
     "\<forall>x\<in>set new. req_endpoint x = E \<and> req_headers x = auth_headers self \<and>
              param x ''envelope'' = Some (JStr ''true'') \<and>
              param x ''limit'' \<noteq> None \<and> param x ''offset'' \<noteq> None \<and>
              (\<forall>k. k \<noteq> ''limit'' \<and> k \<noteq> ''offset'' \<and> k \<noteq> ''envelope'' \<longrightarrow> param x k = map_of (heap ?w ! ?q) k)"
    by blast
  from loop_chain [OF run q off lim] obtain new' where new': "calls (snd y) = calls ?w @ new'"
     "\<forall>i. Suc i < length new' \<longrightarrow>
             (\<exists>body a l. fetch_result net E (calls ?w @ take i new') (new' ! i) = Inr body \<and>
                param (new' ! Suc i) ''limit'' = Some (case pagination_limit body of Some v \<Rightarrow> v | None \<Rightarrow> JInt 1000) \<and>
                py_int (case pagination_limit body of Some v \<Rightarrow> v | None \<Rightarrow> JInt 1000) = Some l \<and>
                param (new' ! i) ''offset'' = Some (JInt a) \<and>
                param (new' ! Suc i) ''offset'' = Some (JInt (a + l)))"
    by blast
  from new(1) new'(1) have same: "new' = new" by simp
  have keys: "\<And>k. k \<noteq> ''limit'' \<Longrightarrow> k \<noteq> ''offset'' \<Longrightarrow> map_of (heap ?w ! ?q) k = map_of ?d k"
    by (simp add: update_conv')
  have hd: "param (hd new) ''offset'' = Some (JInt 0)" "param (hd new) ''limit'' = Some (JInt 1000)"
    using new(3) by (simp_all add: param_cursor_request update_conv')
  from loop_frame [OF run q]
  have fr: "length (heap ?w) \<le> length (heap (snd y))"
     "\<forall>a<length (heap ?w). a \<noteq> ?q \<longrightarrow> heap (snd y) ! a = heap ?w ! a" by blast+
  have fr2: "\<forall>a<length (heap w). heap (snd y) ! a = heap w ! a"
  proof (intro allI impI)
    fix a assume a: "a < length (heap w)"
    with fr(2) have "heap (snd y) ! a = heap ?w ! a" by simp
    with a show "heap (snd y) ! a = heap w ! a" by (simp add: nth_append)
  qed
  have 1: "calls (snd y) = calls w @ new" using new(1) by simp
  have 4: "\<forall>x\<in>set new. req_endpoint x = E \<and> req_headers x = auth_headers self \<and>
              param x ''envelope'' = Some (JStr ''true'') \<and>
              param x ''limit'' \<noteq> None \<and> param x ''offset'' \<noteq> None \<and>
              (\<forall>k. k \<noteq> ''limit'' \<and> k \<noteq> ''offset'' \<and> k \<noteq> ''envelope'' \<longrightarrow> param x k = map_of ?d k)"
    using new(4) keys by simp
  have 5: "\<forall>i. Suc i < length new \<longrightarrow>
             (\<exists>body a l. fetch_result net E (calls w @ take i new) (new ! i) = Inr body \<and>
                param (new ! Suc i) ''limit'' = Some (case pagination_limit body of Some v \<Rightarrow> v | None \<Rightarrow> JInt 1000) \<and>
                py_int (case pagination_limit body of Some v \<Rightarrow> v | None \<Rightarrow> JInt 1000) = Some l \<and>
                param (new ! i) ''offset'' = Some (JInt a) \<and>
                param (new ! Suc i) ''offset'' = Some (JInt (a + l)))"
    using new'(2) same by simp
  have 6: "length (heap w) \<le> length (heap (snd y))" using fr(1) by simp
  from 1 new(2) hd 4 5 6 fr2 show ?thesis by blast
qed

lemma run_requests:
  assumes "p_get_all net self E qs w \<noteq> None"
  shows "\<exists>y. p_get_all net self E qs w = Some y \<and> calls (snd y) = calls w @ run_issued w (p_get_all net self E qs w)
           \<and> run_heap (p_get_all net self E qs w) = heap (snd y)"
proof -
  from assms obtain y where y: "p_get_all net self E qs w = Some y" by blast
  from get_all_run [OF y] obtain new where "calls (snd y) = calls w @ new" by blast
  with y show ?thesis by (simp add: run_issued_Some run_heap_Some issued_def)
qed

lemma p_get_world:
  "heap (snd (p_get net self E qs env w)) =
     heap w @ [if env then AList.update ''envelope'' (JStr ''true'') (case qs of None \<Rightarrow> [] | Some a \<Rightarrow> heap w ! a)
               else (case qs of None \<Rightarrow> [] | Some a \<Rightarrow> heap w ! a)]"
  "issued w (snd (p_get net self E qs env w)) =
     [GET E (if env then AList.update ''envelope'' (JStr ''true'') (case qs of None \<Rightarrow> [] | Some a \<Rightarrow> heap w ! a)
             else (case qs of None \<Rightarrow> [] | Some a \<Rightarrow> heap w ! a)) (auth_headers self)]"
  by (simp_all add: p_get_eq Let_def issued_def)

lemma issued_self: "issued w w = []"
  by (simp add: issued_def)

lemma run_summary:
  assumes "p_get_all net self E qs w \<noteq> None"
  shows "run_issued w (p_get_all net self E qs w) \<noteq> [] \<and>
         param (hd (run_issued w (p_get_all net self E qs w))) ''offset'' = Some (JInt 0) \<and>
         param (hd (run_issued w (p_get_all net self E qs w))) ''limit'' = Some (JInt 1000) \<and>
         (\<forall>x\<in>set (run_issued w (p_get_all net self E qs w)). param x ''envelope'' = Some (JStr ''true''))"
proof -
  from run_requests [OF assms] obtain y where y: "p_get_all net self E qs w = Some y"
    "calls (snd y) = calls w @ run_issued w (p_get_all net self E qs w)" by blast
  from get_all_run [OF y(1)] obtain new where new: "calls (snd y) = calls w @ new \<and> new \<noteq> [] \<and>
          param (hd new) ''offset'' = Some (JInt 0) \<and> param (hd new) ''limit'' = Some (JInt 1000) \<and>
          (\<forall>x\<in>set new. req_endpoint x = E \<and> req_headers x = auth_headers self \<and>
              param x ''envelope'' = Some (JStr ''true'') \<and>
              param x ''limit'' \<noteq> None \<and> param x ''offset'' \<noteq> None \<and>
              (\<forall>k. k \<noteq> ''limit'' \<and> k \<noteq> ''offset'' \<and> k \<noteq> ''envelope'' \<longrightarrow>
                 param x k = map_of (case qs of None \<Rightarrow> [] | Some a \<Rightarrow> heap w ! a) k))"
    by (elim exE conjE) (rule that, intro conjI)
  from new y(2) have eq: "run_issued w (p_get_all net self E qs w) = new" by simp
  have env: "\<forall>x\<in>set new. param x ''envelope'' = Some (JStr ''true'')"
  proof
    fix x assume "x \<in> set new"
    with new [THEN conjunct2, THEN conjunct2, THEN conjunct2, THEN conjunct2, THEN bspec, of x]
    show "param x ''envelope'' = Some (JStr ''true'')" by simp
  qed
  show ?thesis unfolding eq
    using new [THEN conjunct2, THEN conjunct1]
      new [THEN conjunct2, THEN conjunct2, THEN conjunct1]
      new [THEN conjunct2, THEN conjunct2, THEN conjunct2, THEN conjunct1] env
    by (intro conjI)
qed


lemma run_frame:
  assumes r: "p_get_all net self E qs w \<noteq> None"
  shows "length (heap w) \<le> length (run_heap (p_get_all net self E qs w))"
    and "\<forall>a<length (heap w). run_heap (p_get_all net self E qs w) ! a = heap w ! a"
    and "\<forall>x\<in>set (run_issued w (p_get_all net self E qs w)).
          \<forall>k. k \<noteq> ''envelope'' \<and> k \<noteq> ''limit'' \<and> k \<noteq> ''offset'' \<longrightarrow>
               param x k = map_of (case qs of None \<Rightarrow> [] | Some a \<Rightarrow> heap w ! a) k"
proof -
  from run_requests [OF r] obtain y where y: "p_get_all net self E qs w = Some y"
    "calls (snd y) = calls w @ run_issued w (p_get_all net self E qs w)"
    "run_heap (p_get_all net self E qs w) = heap (snd y)" by blast
  from get_all_run [OF y(1)] y(2,3)
  show "length (heap w) \<le> length (run_heap (p_get_all net self E qs w))" by auto
  from get_all_run [OF y(1)] y(2,3)
  show "\<forall>a<length (heap w). run_heap (p_get_all net self E qs w) ! a = heap w ! a"
    by auto
  from get_all_run [OF y(1)] y(2)
  show "\<forall>x\<in>set (run_issued w (p_get_all net self E qs w)).
          \<forall>k. k \<noteq> ''envelope'' \<and> k \<noteq> ''limit'' \<and> k \<noteq> ''offset'' \<longrightarrow>
               param x k = map_of (case qs of None \<Rightarrow> [] | Some a \<Rightarrow> heap w ! a) k"
    by auto
qed

lemma get_stories_by_filter_eq:
  "truthy (project_id self) \<Longrightarrow> api_stories self = Some uri \<Longrightarrow>
   get_stories_by_filter net self f w =
     p_get_all net self uri (Some (length (heap w)))
       (w\<lparr>heap := heap w @ [AList.update ''filter'' f (heap w ! api_filter self)]\<rparr>)"
  by (simp add: get_stories_by_filter_def p_verify_project_id_exists_def alloc_def dict_set_def)


subsection \<open>Servers that answer page by page\<close>

lemma py_add_JInt: "py_int l = Some n \<Longrightarrow> py_add (JInt a) l = Inr (JInt (a + n))"
  by (cases l) auto

lemma page_data_iter:
  "page_data body = Some xs \<Longrightarrow>
   dict_get body ''data'' (JList []) = Inr (JList xs)"
  by (auto simp: page_data_def split: sum.splits json.splits)

lemma usable_limitD:
  "usable_limit body \<Longrightarrow>
   \<exists>p l n. dict_get body ''pagination'' (JObj []) = Inr p \<and> dict_get p ''limit'' (JInt 1000) = Inr l \<and> py_int l = Some n"
  by (auto simp: usable_limit_def split: sum.splits)

lemma fetch_answer:
  "net log req = answer sb \<Longrightarrow> 200 \<le> fst sb \<Longrightarrow> fst sb < 300 \<Longrightarrow> fetch_result net E log req = Inr (snd sb)"
  by (simp add: fetch_result_def answer_def check_response_def resp_ok_def)

lemma body_good_page:
  assumes net: "net (calls w) (cursor_request self E (heap w ! q)) = answer sb"
    and page: "page_of sb xs" and q: "q < length (heap w)"
    and off: "map_of (heap w ! q) ''offset'' = Some (JInt a)"
  shows "\<exists>w1 a'. get_all_body net self E q results w = (Again (results @ xs), w1) \<and>
           calls w1 = calls w @ [cursor_request self E (heap w ! q)] \<and>
           q < length (heap w1) \<and> map_of (heap w1 ! q) ''offset'' = Some (JInt a')"
proof -
  from page have s: "200 \<le> fst sb" "fst sb < 300" and d: "page_data (snd sb) = Some xs" and ne: "xs \<noteq> []"
    and u: "usable_limit (snd sb)" by (simp_all add: page_of_def)
  note f = fetch_answer [where net = net and E = E, OF net s]
  note dd = page_data_iter [OF d]
  from usable_limitD [OF u] obtain p l n where
    p: "dict_get (snd sb) ''pagination'' (JObj []) = Inr p" "dict_get p ''limit'' (JInt 1000) = Inr l" "py_int l = Some n"
    by blast
  note add = py_add_JInt [OF p(3), of a]
  show ?thesis using f dd ne p(1,2) add off q
    by (simp add: get_all_body_def p_get_cursor dict_set_def Let_def update_conv' nth_append list_update_append1)
qed

lemma body_empty_page:
  assumes net: "net (calls w) (cursor_request self E (heap w ! q)) = answer sb"
    and s: "200 \<le> fst sb" "fst sb < 300" and d: "page_data (snd sb) = Some []"
  shows "\<exists>w1. get_all_body net self E q results w = (Leave (Inr results), w1) \<and>
           calls w1 = calls w @ [cursor_request self E (heap w ! q)]"
  using fetch_answer [where net = net and E = E, OF net s] page_data_iter [OF d]
  by (simp add: get_all_body_def p_get_cursor)

lemma body_failure:
  assumes "fetch_result net E (calls w) (cursor_request self E (heap w ! q)) = Inl e"
  shows "\<exists>w1. get_all_body net self E q results w = (Leave (Inl e), w1) \<and>
           calls w1 = calls w @ [cursor_request self E (heap w ! q)]"
  using assms by (simp add: get_all_body_def p_get_cursor)

lemma full_pages_total:
  "recs \<noteq> [] \<Longrightarrow> \<forall>xs\<in>set (butlast recs). length xs = L \<Longrightarrow>
   length (concat recs) = (length recs - 1) * L + length (last recs)"
proof (induction recs)
  case Nil
  then show ?case by simp
next
  case (Cons xs recs)
  show ?case
  proof (cases "recs = []")
    case True
    then show ?thesis by simp
  next
    case False
    with Cons.prems have "length xs = L" "\<forall>ys\<in>set (butlast recs). length ys = L" by simp_all
    with Cons.IH [OF False] False have "length (concat (xs # recs)) = L + ((length recs - 1) * L + length (last recs))"
      by simp
    moreover from False obtain k where k: "length recs = Suc k" by (cases recs) simp_all
    have "L + (length recs - 1) * L = (length (xs # recs) - 1) * L" by (simp add: k)
    ultimately show ?thesis using False by simp
  qed
qed

lemma full_pages_count:
  assumes L: "0 < L" and full: "\<forall>xs\<in>set (butlast recs). length xs = L"
    and lastp: "recs \<noteq> [] \<longrightarrow> length (last recs) \<le> L"
    and ne: "\<forall>xs\<in>set recs. xs \<noteq> []"
  shows "length recs = (length (concat recs) + L - 1) div L"
proof (cases "recs = []")
  case True
  with L show ?thesis by simp
next
  case False
  then have "last recs \<in> set recs" by simp
  with ne have m1: "1 \<le> length (last recs)" by (simp add: Suc_le_eq)
  from lastp False have m2: "length (last recs) \<le> L" by simp
  from False have k: "1 \<le> length recs" by (simp add: Suc_le_eq)
  define m where "m = length (last recs) - 1"
  define k' where "k' = length recs - 1"
  from m1 m2 have m: "length (last recs) = m + 1" "m < L" by (simp_all add: m_def)
  from k have k': "length recs = k' + 1" by (simp add: k'_def)
  from full_pages_total [OF False full] m k'
  have "length (concat recs) + L - 1 = m + (k' + 1) * L" by simp
  then have "(length (concat recs) + L - 1) div L = (m + (k' + 1) * L) div L" by simp
  also have "\<dots> = (k' + 1) + m div L" using L by (subst div_mult_self1) simp_all
  also have "\<dots> = k' + 1" using m(2) by simp
  finally show ?thesis using k' by simp
qed

lemma page_of_nonempty: "list_all2 page_of pages recs \<Longrightarrow> \<forall>xs\<in>set recs. xs \<noteq> []"
  by (induction pages recs rule: list_all2_induct) (auto simp: page_of_def)

lemma run_of_loop:
  assumes "get_all_loop net self E q results w1 = Some (r, w2)"
    and "p_get_all net self E qs w = get_all_loop net self E q results w1"
    and "length (calls w2) = length (calls w) + n"
  shows "run_value (p_get_all net self E qs w) = Some r \<and> length (run_issued w (p_get_all net self E qs w)) = n"
  using assms by (simp add: run_issued_def)

lemma cursors_nonempty: "cursors c bodies \<noteq> []"
  by (cases bodies) simp_all

lemma body_Again_next:
  assumes "get_all_body net self E q results w = (Again results', w')" and "q < length (heap w)"
  shows "\<exists>response. fetch_result net E (calls w) (cursor_request self E (heap w ! q)) = Inr response \<and>
           heap w' ! q = next_cursor (heap w ! q) response"
proof -
  from body_Again_cursor [OF assms] obtain response lim off off' where
    b: "fetch_result net E (calls w) (cursor_request self E (heap w ! q)) = Inr response"
       "lim = (case pagination_limit response of Some l \<Rightarrow> l | None \<Rightarrow> JInt 1000)"
       "map_of (heap w ! q) ''offset'' = Some off" "py_add off lim = Inr off'"
       "heap w' ! q = AList.update ''offset'' off' (AList.update ''limit'' lim (heap w ! q))"
    by blast
  have "next_cursor (heap w ! q) response = AList.update ''offset'' off' (AList.update ''limit'' lim (heap w ! q))"
    using b(2,3,4) by (simp add: next_cursor_def Let_def update_conv')
  with b(1,5) show ?thesis by simp
qed

lemma loop_answers_pages:
  assumes "answers net (calls w) (map (cursor_request self E) (cursors (heap w ! q) (map snd pages)))
             (map answer pages @ [out])"
    and "list_all2 page_of pages recs"
    and "q < length (heap w)" and "map_of (heap w ! q) ''offset'' = Some (JInt a)"
  shows "\<exists>w1. get_all_loop net self E q results w = get_all_loop net self E q (results @ concat recs) w1 \<and>
           calls w1 = calls w @ map (cursor_request self E) (butlast (cursors (heap w ! q) (map snd pages))) \<and>
           net (calls w1) (cursor_request self E (heap w1 ! q)) = out \<and>
           heap w1 ! q = last (cursors (heap w ! q) (map snd pages)) \<and>
           q < length (heap w1)"
  using assms
proof (induction pages arbitrary: recs w results a)
  case Nil
  then have "get_all_loop net self E q results w = get_all_loop net self E q (results @ concat recs) w \<and>
           calls w = calls w @ map (cursor_request self E) (butlast (cursors (heap w ! q) (map snd []))) \<and>
           net (calls w) (cursor_request self E (heap w ! q)) = out \<and>
           heap w ! q = last (cursors (heap w ! q) (map snd [])) \<and>
           q < length (heap w)" by simp
  then show ?case by (rule exI)
next
  case (Cons sb pages)
  from Cons.prems(2) obtain xs rs where recs: "recs = xs # rs" and p: "page_of sb xs"
    and ps: "list_all2 page_of pages rs" by (auto simp: list_all2_Cons1)
  let ?c = "heap w ! q"
  let ?r = "cursor_request self E ?c"
  let ?c1 = "next_cursor ?c (snd sb)"
  from Cons.prems(1) have net: "net (calls w) ?r = answer sb"
    and rest: "answers net (calls w @ [?r]) (map (cursor_request self E) (cursors ?c1 (map snd pages)))
                 (map answer pages @ [out])"
    by simp_all
  from body_good_page [where net = net and w = w and self = self and E = E and q = q and results = results,
      OF net p Cons.prems(3) Cons.prems(4)]
  obtain w1 a1 where
    b: "get_all_body net self E q results w = (Again (results @ xs), w1)"
       "calls w1 = calls w @ [?r]"
       "q < length (heap w1)" "map_of (heap w1 ! q) ''offset'' = Some (JInt a1)"
    by blast
  from p have s: "200 \<le> fst sb" "fst sb < 300" by (simp_all add: page_of_def)
  from fetch_answer [where net = net and E = E, OF net s]
  have f: "fetch_result net E (calls w) ?r = Inr (snd sb)" .
  from body_Again_next [OF b(1) Cons.prems(3)] f have c1: "heap w1 ! q = ?c1" by simp
  from b(1) have step: "get_all_loop net self E q results w = get_all_loop net self E q (results @ xs) w1"
    by (subst get_all_loop.simps) simp
  from rest b(2) c1
  have rest1: "answers net (calls w1) (map (cursor_request self E) (cursors (heap w1 ! q) (map snd pages)))
                 (map answer pages @ [out])" by simp
  from Cons.IH [OF rest1 ps b(3) b(4)] obtain w2 where
    ih: "get_all_loop net self E q (results @ xs) w1 = get_all_loop net self E q ((results @ xs) @ concat rs) w2"
        "calls w2 = calls w1 @ map (cursor_request self E) (butlast (cursors (heap w1 ! q) (map snd pages)))"
        "net (calls w2) (cursor_request self E (heap w2 ! q)) = out"
        "heap w2 ! q = last (cursors (heap w1 ! q) (map snd pages))"
        "q < length (heap w2)"
    by blast
  have 1: "get_all_loop net self E q results w = get_all_loop net self E q (results @ concat recs) w2"
    using step ih(1) recs by simp
  have 2: "calls w2 = calls w @ map (cursor_request self E) (butlast (cursors ?c (map snd (sb # pages))))"
    using ih(2) b(2) c1 by (simp add: cursors_nonempty)
  have 4: "heap w2 ! q = last (cursors ?c (map snd (sb # pages)))"
    using ih(4) c1 by (simp add: cursors_nonempty)
  from 1 2 ih(3) 4 ih(5) show ?case by blast
qed

lemma answered_prefix:
  assumes an: "answers net (calls w)
                 (requests_for self E (case qs of None \<Rightarrow> [] | Some a \<Rightarrow> heap w ! a) (map snd pages))
                 (map answer pages @ [out])"
    and pg: "list_all2 page_of pages recs"
  shows "\<exists>q w1. p_get_all net self E qs w = get_all_loop net self E q (concat recs) w1 \<and>
           calls w1 @ [cursor_request self E (heap w1 ! q)] =
             calls w @ requests_for self E (case qs of None \<Rightarrow> [] | Some a \<Rightarrow> heap w ! a) (map snd pages) \<and>
           net (calls w1) (cursor_request self E (heap w1 ! q)) = out \<and> q < length (heap w1)"
proof -
  let ?d = "case qs of None \<Rightarrow> [] | Some a \<Rightarrow> heap w ! a"
  let ?w = "w\<lparr>heap := heap w @ [first_cursor ?d]\<rparr>"
  let ?q = "length (heap w)"
  let ?cs = "cursors (first_cursor ?d) (map snd pages)"
  have c: "heap ?w ! ?q = first_cursor ?d" by simp
  have an': "answers net (calls ?w) (map (cursor_request self E) (cursors (heap ?w ! ?q) (map snd pages)))
             (map answer pages @ [out])"
    using an by (simp add: requests_for_def)
  have q: "?q < length (heap ?w)" by simp
  have off: "map_of (heap ?w ! ?q) ''offset'' = Some (JInt 0)" by (simp add: first_cursor_def update_conv')
  from loop_answers_pages [where net = net and self = self and E = E and results = "[]" and w = ?w
      and q = ?q, OF an' pg q off]
  obtain w1 where l:
    "get_all_loop net self E ?q [] ?w = get_all_loop net self E ?q ([] @ concat recs) w1 \<and>
     calls w1 = calls ?w @ map (cursor_request self E) (butlast (cursors (heap ?w ! ?q) (map snd pages))) \<and>
     net (calls w1) (cursor_request self E (heap w1 ! ?q)) = out \<and>
     heap w1 ! ?q = last (cursors (heap ?w ! ?q) (map snd pages)) \<and>
     ?q < length (heap w1)"
    by (elim exE) (rule that)
  have 1: "p_get_all net self E qs w = get_all_loop net self E ?q (concat recs) w1"
    using l [THEN conjunct1] by (simp add: p_get_all_eq first_cursor_def)
  have "calls w1 @ [cursor_request self E (heap w1 ! ?q)] =
          calls w @ map (cursor_request self E) (butlast ?cs @ [last ?cs])"
    using l [THEN conjunct2, THEN conjunct1] l [THEN conjunct2, THEN conjunct2, THEN conjunct2, THEN conjunct1]
    by simp
  then have 2: "calls w1 @ [cursor_request self E (heap w1 ! ?q)] = calls w @ requests_for self E ?d (map snd pages)"
    by (simp add: requests_for_def cursors_nonempty)
  note 3 = l [THEN conjunct2, THEN conjunct2, THEN conjunct1]
  note 4 = l [THEN conjunct2, THEN conjunct2, THEN conjunct2, THEN conjunct2]
  from 1 2 3 4 show ?thesis by (intro exI [of _ ?q] exI [of _ w1] conjI)
qed

lemma length_cursors: "length (cursors c bodies) = Suc (length bodies)"
  by (induction bodies arbitrary: c) simp_all

lemma length_requests_for: "length (requests_for self E d bodies) = Suc (length bodies)"
  by (simp add: requests_for_def length_cursors)

lemma run_of_loop_requests:
  assumes "get_all_loop net self E q results w1 = Some (r, w2)"
    and "p_get_all net self E qs w = get_all_loop net self E q results w1"
    and "calls w2 = calls w @ reqs"
  shows "run_value (p_get_all net self E qs w) = Some r \<and> run_issued w (p_get_all net self E qs w) = reqs"
  using assms by (simp add: run_issued_def)

lemma answered_failure:
  assumes an: "answers net (calls w)
                 (requests_for self E (case qs of None \<Rightarrow> [] | Some a \<Rightarrow> heap w ! a) (map snd pages))
                 (map answer pages @ [bad])"
    and pg: "list_all2 page_of pages recs"
    and fail: "(case bad of Raised x \<Rightarrow> Inl (RequestException x) | Returned resp \<Rightarrow> check_response E resp) = Inl e"
  shows "run_value (p_get_all net self E qs w) = Some (Inl e) \<and>
         run_issued w (p_get_all net self E qs w) =
           requests_for self E (case qs of None \<Rightarrow> [] | Some a \<Rightarrow> heap w ! a) (map snd pages)"
proof -
  from answered_prefix [where net = net and self = self and E = E and qs = qs, OF an pg]
  obtain q w1 where p: "p_get_all net self E qs w = get_all_loop net self E q (concat recs) w1"
     "calls w1 @ [cursor_request self E (heap w1 ! q)] =
        calls w @ requests_for self E (case qs of None \<Rightarrow> [] | Some a \<Rightarrow> heap w ! a) (map snd pages)"
     "net (calls w1) (cursor_request self E (heap w1 ! q)) = bad" by blast
  from p(3) fail have f: "fetch_result net E (calls w1) (cursor_request self E (heap w1 ! q)) = Inl e"
    by (simp add: fetch_result_def)
  from body_failure [OF f]
  obtain w2 where b: "get_all_body net self E q (concat recs) w1 = (Leave (Inl e), w2)"
     "calls w2 = calls w1 @ [cursor_request self E (heap w1 ! q)]" by blast
  from b(1) have l: "get_all_loop net self E q (concat recs) w1 = Some (Inl e, w2)"
    by (subst get_all_loop.simps) simp
  from b(2) p(2) have c: "calls w2 =
      calls w @ requests_for self E (case qs of None \<Rightarrow> [] | Some a \<Rightarrow> heap w ! a) (map snd pages)" by simp
  from run_of_loop_requests [OF l p(1) c] show ?thesis .
qed


lemma body_calls:
  "calls (snd (get_all_body net self E q results w)) = calls w @ [cursor_request self E (heap w ! q)]"
  by (simp add: get_all_body_def p_get_cursor dict_set_def Let_def
        split: sum.splits if_splits option.splits prod.splits)

lemma body_request_envelope:
  "\<forall>x\<in>set (issued w (snd (get_all_body net self E q results w))). param x ''envelope'' = Some (JStr ''true'')"
  by (simp add: issued_def body_calls param_cursor_request)

lemma loop_failure_last:
  assumes "get_all_loop net self E q results w = Some y"
  shows "calls (snd y) = calls w @ issued w (snd y) \<and>
         (\<forall>i<length (issued w (snd y)).
            fetch_result net E (calls w @ take i (issued w (snd y))) (issued w (snd y) ! i) = Inl e \<longrightarrow>
            Suc i = length (issued w (snd y)) \<and> fst y = Inl e)"
  using assms
proof (induct rule: loop_induct)
  case (Leave results w r w')
  from body_calls [of net self E q results w] Leave
  have c: "calls w' = calls w @ [cursor_request self E (heap w ! q)]" by simp
  then have i: "issued w w' = [cursor_request self E (heap w ! q)]" by (simp add: issued_def)
  have "fetch_result net E (calls w) (cursor_request self E (heap w ! q)) = Inl e \<Longrightarrow> r = Inl e"
  proof -
    assume "fetch_result net E (calls w) (cursor_request self E (heap w ! q)) = Inl e"
    from body_failure [OF this, of results] Leave show "r = Inl e" by simp
  qed
  with c i show ?case by simp
next
  case (Again results w results' w1 y)
  let ?r = "cursor_request self E (heap w ! q)"
  from body_calls [of net self E q results w] Again(1)
  have c: "calls w1 = calls w @ [?r]" by simp
  from Again(2) have p: "calls (snd y) = calls w1 @ issued w1 (snd y)" by blast
  define new' where "new' = issued w1 (snd y)"
  from p c have "calls (snd y) = calls w @ (?r # new')" by (simp add: new'_def)
  then have "issued w (snd y) = ?r # new'" by (simp add: issued_def)
  then have i: "issued w (snd y) = ?r # issued w1 (snd y)" by (simp add: new'_def)
  have f0: "fetch_result net E (calls w) ?r \<noteq> Inl e"
  proof
    assume "fetch_result net E (calls w) ?r = Inl e"
    from body_failure [OF this, of results] Again(1) show False by simp
  qed
  have "\<forall>i<length (?r # issued w1 (snd y)).
            fetch_result net E (calls w @ take i (?r # issued w1 (snd y))) ((?r # issued w1 (snd y)) ! i) = Inl e \<longrightarrow>
            Suc i = length (?r # issued w1 (snd y)) \<and> fst y = Inl e"
  proof (intro allI impI)
    fix i
    assume l: "i < length (?r # issued w1 (snd y))"
      and f: "fetch_result net E (calls w @ take i (?r # issued w1 (snd y))) ((?r # issued w1 (snd y)) ! i) = Inl e"
    show "Suc i = length (?r # issued w1 (snd y)) \<and> fst y = Inl e"
    proof (cases i)
      case 0
      with f f0 show ?thesis by simp
    next
      case (Suc j)
      with l have j: "j < length (issued w1 (snd y))" by simp
      from f Suc c have "fetch_result net E (calls w1 @ take j (issued w1 (snd y))) (issued w1 (snd y) ! j) = Inl e"
        by simp
      with Again(2) j have "Suc j = length (issued w1 (snd y)) \<and> fst y = Inl e" by blast
      with Suc show ?thesis by simp
    qed
  qed
  with p c i show ?case by simp
qed

lemma run_failure_last:
  assumes r: "p_get_all net self E qs w \<noteq> None"
  shows "\<forall>i<length (run_issued w (p_get_all net self E qs w)).
            fetch_result net E (calls w @ take i (run_issued w (p_get_all net self E qs w)))
               (run_issued w (p_get_all net self E qs w) ! i) = Inl e \<longrightarrow>
            Suc i = length (run_issued w (p_get_all net self E qs w)) \<and>
            run_value (p_get_all net self E qs w) = Some (Inl e)"
proof -
  from r obtain y where y: "p_get_all net self E qs w = Some y" by blast
  let ?w = "w\<lparr>heap := heap w @ [AList.update ''offset'' (JInt 0) (AList.update ''limit'' (JInt 1000)
                   (case qs of None \<Rightarrow> [] | Some a \<Rightarrow> heap w ! a))]\<rparr>"
  from y have l: "get_all_loop net self E (length (heap w)) [] ?w = Some y" by (simp add: p_get_all_eq)
  have i: "issued ?w (snd y) = issued w (snd y)" by (simp add: issued_def)
  have v: "run_value (Some y) = Some (fst y)" by (cases y) simp
  from loop_failure_last [OF l, of e] show ?thesis
    unfolding y run_issued_Some v i by simp
qed

subsection \<open>The loop over the integrations\<close>

lemma get_integration_stories_calls:
  "\<exists>new. calls (snd (get_integration_stories py_repr net self i w)) = calls w @ new \<and>
         (\<forall>x\<in>set new. param x ''exclude_linked'' = Some (JStr ''true''))"
  by (simp add: get_integration_stories_def alloc_def p_get_eq Let_def param_def
        split: sum.splits option.splits)

lemma in_order_calls:
  "\<exists>new. calls (snd (integration_stories_in_order py_repr net self ids w)) = calls w @ new \<and>
         (\<forall>x\<in>set new. param x ''exclude_linked'' = Some (JStr ''true''))"
proof (induction ids arbitrary: w)
  case Nil
  show ?case by simp
next
  case (Cons i ids)
  obtain r w1 where g: "get_integration_stories py_repr net self i w = (r, w1)"
    by (cases "get_integration_stories py_repr net self i w")
  from get_integration_stories_calls [of py_repr net self i w] g obtain new1 where
    n1: "calls w1 = calls w @ new1" "\<forall>x\<in>set new1. param x ''exclude_linked'' = Some (JStr ''true'')"
    by auto
  from Cons.IH [of w1] obtain new2 where
    n2: "calls (snd (integration_stories_in_order py_repr net self ids w1)) = calls w1 @ new2"
        "\<forall>x\<in>set new2. param x ''exclude_linked'' = Some (JStr ''true'')"
    by blast
  show ?case
  proof (cases r)
    case (Inl e)
    with g n1 show ?thesis by auto
  next
    case (Inr stories)
    show ?thesis
    proof (cases "py_iter stories")
      case (Inl e)
      with g Inr n1 show ?thesis by auto
    next
      case it: (Inr xs)
      obtain r2 w2 where t: "integration_stories_in_order py_repr net self ids w1 = (r2, w2)"
        by (cases "integration_stories_in_order py_repr net self ids w1")
      with n2 have "calls w2 = calls w @ (new1 @ new2)" using n1 by simp
      moreover have "\<forall>x\<in>set (new1 @ new2). param x ''exclude_linked'' = Some (JStr ''true'')"
        using n1(2) n2(2) by auto
      ultimately have "\<exists>new. calls w2 = calls w @ new \<and> (\<forall>x\<in>set new. param x ''exclude_linked'' = Some (JStr ''true''))"
        by blast
      with g Inr it t show ?thesis by (cases r2) simp_all
    qed
  qed
qed

lemma loop_is_concat:
  "map (\<lambda>i. dict_get i ''id'' JNull) integrations = map Inr ids \<Longrightarrow>
   integration_stories_loop py_repr net self integrations results w =
     (case integration_stories_in_order py_repr net self ids w of
        (Inl e, w2) \<Rightarrow> (Inl e, w2)
      | (Inr xss, w2) \<Rightarrow> (Inr (results @ concat xss), w2))"
proof (induction integrations arbitrary: ids results w)
  case Nil
  then show ?case by simp
next
  case (Cons integration rest)
  from Cons.prems obtain i ids' where ids: "ids = i # ids'" "dict_get integration ''id'' JNull = Inr i"
    "map (\<lambda>i. dict_get i ''id'' JNull) rest = map Inr ids'"
    by (cases ids) auto
  show ?case
    unfolding ids(1)
    by (simp add: ids(2) Cons.IH [OF ids(3)] split: prod.splits sum.splits)
qed

subsection \<open>The example clients\<close>

lemma anonymous_client_simps:
  "project_id anonymous_client = JNull"
  "account_id anonymous_client = JNull"
  by (simp_all add: anonymous_client_def new_client_def alloc_def empty_world_def Let_def)

lemma start_world_simps:
  "heap start_world = [[(''date_format'', JStr ''millis''), (''filter'', JNull)]]"
  "calls start_world = []"
  by (simp_all add: start_world_def new_client_def alloc_def empty_world_def Let_def)

lemma fst_p_get: "fst (p_get net self E qs env w) =
   fetch_result net E (calls w) (last (calls (snd (p_get net self E qs env w))))"
  by (simp add: p_get_eq Let_def)


section \<open>Transport\<close>

text \<open>
  Claim C5, as the code has it. When \<^verbatim>\<open>requests.get\<close> hands back a response with status
  \<open>s\<close> and (possibly unparsable) body \<open>b\<close>, \<^verbatim>\<open>_get\<close> returns the value \<open>j\<close> exactly when
  \<open>s\<close> is in [200, 300) and the body parses to \<open>j\<close>, unmodified; for every other status
  it raises \<^verbatim>\<open>ApiError\<close> with the message \<^verbatim>\<open>GET <endpoint> <status>\<close>; and a 2xx
  response whose body is not JSON raises the decoder's error, which is not an \<^verbatim>\<open>ApiError\<close>.
\<close>

theorem get_status_contract:
  assumes "net (calls w) (last (calls (snd (p_get net self E qs env w)))) = Returned (Some (Response s b))"
  shows "(fst (p_get net self E qs env w) = Inr j \<longleftrightarrow> 200 \<le> s \<and> s < 300 \<and> b = Some j) \<and>
         (\<not> (200 \<le> s \<and> s < 300) \<longrightarrow>
            fst (p_get net self E qs env w) = Inl (ApiError (''GET '' @ E @ '' '' @ string_of_int s))) \<and>
         (200 \<le> s \<and> s < 300 \<and> b = None \<longrightarrow> fst (p_get net self E qs env w) = Inl JSONDecodeError)"
  using assms
  by (subst (1 2 3) fst_p_get) (auto simp: fetch_result_def check_response_def resp_ok_def split: option.splits)


text \<open>The contract at a 404 answer for endpoint \<^verbatim>\<open>E\<close>.\<close>

theorem get_status_contract_witness:
  "not_found_server (calls start_world)
      (last (calls (snd (p_get not_found_server example_client ''E'' None False start_world))))
     = Returned (Some (Response 404 (Some (JObj [(''error'', JStr ''not found'')])))) \<and>
   fst (p_get not_found_server example_client ''E'' None False start_world) = Inl (ApiError ''GET E 404'')"
  using get_status_contract [of not_found_server start_world example_client "''E''" None False 404
          "Some (JObj [(''error'', JStr ''not found'')])"]
  by (simp add: not_found_server_def string_of_int_def string_of_nat.simps)


text \<open>
  Claim C5 as stated fails: with status 200 and a body that is not JSON, \<^verbatim>\<open>_get\<close> does
  not return the parsed body, and the error it raises is not an \<^verbatim>\<open>ApiError\<close>.
\<close>

theorem get_non_json_counterexample:
  "fst (p_get html_server example_client ''E'' None False start_world) = Inl JSONDecodeError"
  by (simp add: p_get_eq fetch_result_def html_server_def check_response_def resp_ok_def Let_def)


section \<open>Identifier guards\<close>

text \<open>
  Claim C6. On a client whose project identifier is unset (\<^verbatim>\<open>None\<close>, or any falsy
  value), every method that needs it raises an \<^verbatim>\<open>ApiError\<close> naming the guarded method
  and leaves the world as it was: the request log is unchanged, so no GET was issued.
  The same holds for the account identifier and \<^verbatim>\<open>get_account_memberships\<close>.
\<close>

theorem identifier_guards:
  "(\<not> truthy (project_id self) \<longrightarrow>
      get_stories_by_filter net self pivotal_filter w =
        Some (Inl (ApiError ''Project ID not set on API connection and is required by get_stories_by_filter().''), w) \<and>
      get_stories_by_label py_repr net self label w =
        Some (Inl (ApiError ''Project ID not set on API connection and is required by get_stories_by_label().''), w) \<and>
      get_story_activities py_repr net self story_id w =
        (Inl (ApiError ''Project ID not set on API connection and is required by get_story_activities().''), w) \<and>
      get_project_memberships net self w =
        (Inl (ApiError ''Project ID not set on API connection and is required by get_project_memberships().''), w) \<and>
      get_integrations net self w =
        (Inl (ApiError ''Project ID not set on API connection and is required by get_integrations().''), w) \<and>
      get_integration py_repr net self integration_id w =
        (Inl (ApiError ''Project ID not set on API connection and is required by get_integration().''), w) \<and>
      get_integration_stories py_repr net self integration_id w =
        (Inl (ApiError ''Project ID not set on API connection and is required by get_integration_stories().''), w) \<and>
      get_all_integration_stories py_repr net self w =
        (Inl (ApiError ''Project ID not set on API connection and is required by get_integrations().''), w)) \<and>
   (\<not> truthy (account_id self) \<longrightarrow>
      get_account_memberships net self w =
        (Inl (ApiError ''Account ID not set on API connection and is required by get_account_memberships().''), w))"
  by (simp add: get_stories_by_filter_def get_stories_by_label_def get_story_activities_def
        get_project_memberships_def get_integrations_def get_integration_def get_integration_stories_def
        get_account_memberships_def get_all_integration_stories_def p_verify_project_id_exists_def p_verify_account_id_exists_def)


text \<open>The guards on the client constructed without identifiers.\<close>

theorem identifier_guards_witness:
  "\<not> truthy (project_id anonymous_client) \<and> \<not> truthy (account_id anonymous_client) \<and>
   get_stories_by_filter not_found_server anonymous_client (JStr ''state:started'') start_world =
     Some (Inl (ApiError ''Project ID not set on API connection and is required by get_stories_by_filter().''),
           start_world) \<and>
   get_account_memberships not_found_server anonymous_client start_world =
     (Inl (ApiError ''Account ID not set on API connection and is required by get_account_memberships().''),
      start_world) \<and>
   calls start_world = []"
  using identifier_guards [of anonymous_client not_found_server "JStr ''state:started''" start_world]
  by (simp add: anonymous_client_simps start_world_simps)

section \<open>The cursor of a paginated fetch\<close>

text \<open>
  Claim C2, as the code has it. In a \<^verbatim>\<open>_get_all\<close> call that returns, the first request
  carries the limit 1000, and after every page answer the limit of the next request is
  \<^verbatim>\<open>pagination.limit\<close> of that answer when the pagination object and its limit field
  are present, and the default 1000 otherwise (line 107 falls back to
  \<^verbatim>\<open>DEFAULT_PAGE_LIMIT\<close>, not to the limit in force).
\<close>

theorem next_limit_from_response:
  assumes "p_get_all net self E qs w \<noteq> None"
  shows "param (hd (run_issued w (p_get_all net self E qs w))) ''limit'' = Some (JInt 1000) \<and>
         (\<forall>i. Suc i < length (run_issued w (p_get_all net self E qs w)) \<longrightarrow>
            (\<exists>body. fetch_result net E (calls w @ take i (run_issued w (p_get_all net self E qs w)))
                       (run_issued w (p_get_all net self E qs w) ! i) = Inr body \<and>
                    param (run_issued w (p_get_all net self E qs w) ! Suc i) ''limit'' =
                      Some (case pagination_limit body of Some v \<Rightarrow> v | None \<Rightarrow> JInt 1000)))"
proof -
  from run_requests [OF assms] obtain y where y: "p_get_all net self E qs w = Some y"
    "calls (snd y) = calls w @ run_issued w (p_get_all net self E qs w)" by blast
  from get_all_run [OF y(1)] y(2) show ?thesis by auto
qed

text \<open>The first two requests of the scenario of the specification.\<close>

theorem next_limit_from_response_witness:
  "p_get_all (scripted scenario_script) example_client ''E'' None start_world \<noteq> None \<and>
   Suc 0 < length (run_issued start_world (p_get_all (scripted scenario_script) example_client ''E'' None start_world)) \<and>
   param (hd (run_issued start_world (p_get_all (scripted scenario_script) example_client ''E'' None start_world)))
     ''limit'' = Some (JInt 1000) \<and>
   (\<exists>body. fetch_result (scripted scenario_script) ''E''
              (calls start_world @
                 take 0 (run_issued start_world (p_get_all (scripted scenario_script) example_client ''E'' None start_world)))
              (run_issued start_world (p_get_all (scripted scenario_script) example_client ''E'' None start_world) ! 0)
            = Inr body \<and>
          param (run_issued start_world (p_get_all (scripted scenario_script) example_client ''E'' None start_world) ! Suc 0)
            ''limit'' = Some (case pagination_limit body of Some v \<Rightarrow> v | None \<Rightarrow> JInt 1000))"
proof -
  have h: "p_get_all (scripted scenario_script) example_client ''E'' None start_world \<noteq> None"
    by code_simp
  have n: "Suc 0 < length (run_issued start_world (p_get_all (scripted scenario_script) example_client ''E'' None start_world))"
    by code_simp
  from next_limit_from_response [OF h] h n show ?thesis by blast
qed

text \<open>
  Claim C2 as stated fails: the first answer sets the limit to 2, the second answer
  has no pagination object, and the third request carries the limit 1000 again, not 2.
\<close>

theorem limit_reverts_counterexample:
  "limits_sent (run_issued start_world
      (p_get_all (scripted defaulting_script) example_client ''E'' None start_world))
   = [Some (JInt 1000), Some (JInt 2), Some (JInt 1000)]"
  by code_simp

text \<open>
  Claim C3, as the code has it. In a \<^verbatim>\<open>_get_all\<close> call that returns, the first request
  carries the offset 0, and the offset of every later request is the offset of the
  request before it plus the limit as updated from the answer to that request (the
  server's limit when present, 1000 otherwise); so the offset does not decrease at a
  step whose limit is not negative.
\<close>

theorem offset_advances:
  assumes "p_get_all net self E qs w \<noteq> None"
  shows "param (hd (run_issued w (p_get_all net self E qs w))) ''offset'' = Some (JInt 0) \<and>
         (\<forall>i. Suc i < length (run_issued w (p_get_all net self E qs w)) \<longrightarrow>
            (\<exists>body a l. fetch_result net E (calls w @ take i (run_issued w (p_get_all net self E qs w)))
                       (run_issued w (p_get_all net self E qs w) ! i) = Inr body \<and>
                    py_int (case pagination_limit body of Some v \<Rightarrow> v | None \<Rightarrow> JInt 1000) = Some l \<and>
                    param (run_issued w (p_get_all net self E qs w) ! i) ''offset'' = Some (JInt a) \<and>
                    param (run_issued w (p_get_all net self E qs w) ! Suc i) ''offset'' = Some (JInt (a + l)) \<and>
                    (0 \<le> l \<longrightarrow> a \<le> a + l)))"
proof -
  from run_requests [OF assms] obtain y where y: "p_get_all net self E qs w = Some y"
    "calls (snd y) = calls w @ run_issued w (p_get_all net self E qs w)" by blast
  from get_all_run [OF y(1)] obtain new where new: "calls (snd y) = calls w @ new"
     "param (hd new) ''offset'' = Some (JInt 0)"
     "\<forall>i. Suc i < length new \<longrightarrow>
             (\<exists>body a l. fetch_result net E (calls w @ take i new) (new ! i) = Inr body \<and>
                param (new ! Suc i) ''limit'' = Some (case pagination_limit body of Some v \<Rightarrow> v | None \<Rightarrow> JInt 1000) \<and>
                py_int (case pagination_limit body of Some v \<Rightarrow> v | None \<Rightarrow> JInt 1000) = Some l \<and>
                param (new ! i) ''offset'' = Some (JInt a) \<and>
                param (new ! Suc i) ''offset'' = Some (JInt (a + l)))"
    by blast
  from new(1) y(2) have eq: "run_issued w (p_get_all net self E qs w) = new" by simp
  show ?thesis unfolding eq
  proof (intro conjI allI impI)
    show "param (hd new) ''offset'' = Some (JInt 0)" by (rule new(2))
  next
    fix i assume "Suc i < length new"
    with new(3) obtain body a l where
      "fetch_result net E (calls w @ take i new) (new ! i) = Inr body"
      "py_int (case pagination_limit body of Some v \<Rightarrow> v | None \<Rightarrow> JInt 1000) = Some l"
      "param (new ! i) ''offset'' = Some (JInt a)"
      "param (new ! Suc i) ''offset'' = Some (JInt (a + l))" by blast
    then show "\<exists>body a l. fetch_result net E (calls w @ take i new) (new ! i) = Inr body \<and>
                    py_int (case pagination_limit body of Some v \<Rightarrow> v | None \<Rightarrow> JInt 1000) = Some l \<and>
                    param (new ! i) ''offset'' = Some (JInt a) \<and>
                    param (new ! Suc i) ''offset'' = Some (JInt (a + l)) \<and>
                    (0 \<le> l \<longrightarrow> a \<le> a + l)"
      by (intro exI [of _ body] exI [of _ a] exI [of _ l]) simp
  qed
qed

text \<open>The first two requests of the scenario of the specification.\<close>

theorem offset_advances_witness:
  "p_get_all (scripted scenario_script) example_client ''E'' None start_world \<noteq> None \<and>
   Suc 0 < length (run_issued start_world (p_get_all (scripted scenario_script) example_client ''E'' None start_world)) \<and>
   param (hd (run_issued start_world (p_get_all (scripted scenario_script) example_client ''E'' None start_world)))
     ''offset'' = Some (JInt 0) \<and>
   (\<exists>body a l. fetch_result (scripted scenario_script) ''E''
              (calls start_world @
                 take 0 (run_issued start_world (p_get_all (scripted scenario_script) example_client ''E'' None start_world)))
              (run_issued start_world (p_get_all (scripted scenario_script) example_client ''E'' None start_world) ! 0)
            = Inr body \<and>
          py_int (case pagination_limit body of Some v \<Rightarrow> v | None \<Rightarrow> JInt 1000) = Some l \<and>
          param (run_issued start_world (p_get_all (scripted scenario_script) example_client ''E'' None start_world) ! 0)
            ''offset'' = Some (JInt a) \<and>
          param (run_issued start_world (p_get_all (scripted scenario_script) example_client ''E'' None start_world) ! Suc 0)
            ''offset'' = Some (JInt (a + l)) \<and>
          (0 \<le> l \<longrightarrow> a \<le> a + l))"
proof -
  have h: "p_get_all (scripted scenario_script) example_client ''E'' None start_world \<noteq> None"
    by code_simp
  have n: "Suc 0 < length (run_issued start_world (p_get_all (scripted scenario_script) example_client ''E'' None start_world))"
    by code_simp
  from offset_advances [OF h] h n show ?thesis by blast
qed

text \<open>
  Claim C3 as stated fails: the code adds whatever integer the server reports, so after
  an answer with \<^verbatim>\<open>pagination.limit = -5\<close> the offset goes from 0 down to -5.
\<close>

theorem offset_decreases_counterexample:
  "offsets_sent (run_issued start_world
      (p_get_all (scripted negative_limit_script) example_client ''E'' None start_world))
   = [Some (JInt 0), Some (JInt (- 5))]"
  by code_simp

section \<open>The caller's querystring\<close>

text \<open>
  Claim C7. \<^verbatim>\<open>_get\<close> leaves every dictionary that existed before the call as it was, in
  particular the caller's querystring, and the one request it issues carries the
  caller's parameters, plus \<^verbatim>\<open>envelope\<close> when the flag is set. A \<^verbatim>\<open>_get_all\<close> call that
  returns leaves every such dictionary as it was too, and each of its requests carries
  \<^verbatim>\<open>envelope\<close>, \<^verbatim>\<open>limit\<close> and \<^verbatim>\<open>offset\<close> and, under every other key, what the caller's
  querystring holds.
\<close>

theorem querystring_never_mutated:
  "(\<forall>a<length (heap w). heap (snd (p_get net self E qs env w)) ! a = heap w ! a) \<and>
   (\<forall>x\<in>set (issued w (snd (p_get net self E qs env w))). \<forall>k.
       param x k = (if env \<and> k = ''envelope'' then Some (JStr ''true'')
                    else map_of (case qs of None \<Rightarrow> [] | Some a \<Rightarrow> heap w ! a) k)) \<and>
   (p_get_all net self E qs w \<noteq> None \<longrightarrow>
      (\<forall>a<length (heap w). run_heap (p_get_all net self E qs w) ! a = heap w ! a) \<and>
      (\<forall>x\<in>set (run_issued w (p_get_all net self E qs w)).
          param x ''envelope'' \<noteq> None \<and> param x ''limit'' \<noteq> None \<and> param x ''offset'' \<noteq> None \<and>
          (\<forall>k. k \<noteq> ''envelope'' \<and> k \<noteq> ''limit'' \<and> k \<noteq> ''offset'' \<longrightarrow>
               param x k = map_of (case qs of None \<Rightarrow> [] | Some a \<Rightarrow> heap w ! a) k)))"
proof (intro conjI impI)
  show "\<forall>a<length (heap w). heap (snd (p_get net self E qs env w)) ! a = heap w ! a"
    by (simp add: p_get_world nth_append)
  show "\<forall>x\<in>set (issued w (snd (p_get net self E qs env w))). \<forall>k.
       param x k = (if env \<and> k = ''envelope'' then Some (JStr ''true'')
                    else map_of (case qs of None \<Rightarrow> [] | Some a \<Rightarrow> heap w ! a) k)"
    by (simp add: p_get_world param_def update_conv')
next
  assume r: "p_get_all net self E qs w \<noteq> None"
  from run_requests [OF r] obtain y where y: "p_get_all net self E qs w = Some y"
    "calls (snd y) = calls w @ run_issued w (p_get_all net self E qs w)"
    "run_heap (p_get_all net self E qs w) = heap (snd y)" by blast
  from get_all_run [OF y(1)] y(2,3)
  show "\<forall>a<length (heap w). run_heap (p_get_all net self E qs w) ! a = heap w ! a"
    by auto
  from get_all_run [OF y(1)] y(2)
  show "\<forall>x\<in>set (run_issued w (p_get_all net self E qs w)).
          param x ''envelope'' \<noteq> None \<and> param x ''limit'' \<noteq> None \<and> param x ''offset'' \<noteq> None \<and>
          (\<forall>k. k \<noteq> ''envelope'' \<and> k \<noteq> ''limit'' \<and> k \<noteq> ''offset'' \<longrightarrow>
               param x k = map_of (case qs of None \<Rightarrow> [] | Some a \<Rightarrow> heap w ! a) k)"
    by auto
qed

text \<open>
  A caller passes its own dictionary, which has a \<^verbatim>\<open>limit\<close> key; it is unchanged after
  \<^verbatim>\<open>_get\<close> and after \<^verbatim>\<open>_get_all\<close>, and every request carries its \<^verbatim>\<open>filter\<close>.
\<close>

theorem querystring_never_mutated_witness:
  "1 < length (heap caller_world) \<and>
   heap caller_world ! 1 = [(''filter'', JStr ''state:started''), (''limit'', JInt 5)] \<and>
   heap (snd (p_get (scripted scenario_script) example_client ''E'' (Some 1) True caller_world)) ! 1
     = heap caller_world ! 1 \<and>
   p_get_all (scripted scenario_script) example_client ''E'' (Some 1) caller_world \<noteq> None \<and>
   run_heap (p_get_all (scripted scenario_script) example_client ''E'' (Some 1) caller_world) ! 1
     = heap caller_world ! 1 \<and>
   run_issued caller_world (p_get_all (scripted scenario_script) example_client ''E'' (Some 1) caller_world) \<noteq> [] \<and>
   param (last (run_issued caller_world (p_get_all (scripted scenario_script) example_client ''E'' (Some 1) caller_world)))
      ''filter'' = Some (JStr ''state:started'')"
proof -
  have l: "1 < length (heap caller_world)" by code_simp
  have c: "heap caller_world ! 1 = [(''filter'', JStr ''state:started''), (''limit'', JInt 5)]" by code_simp
  have h: "p_get_all (scripted scenario_script) example_client ''E'' (Some 1) caller_world \<noteq> None"
    by code_simp
  have n: "run_issued caller_world (p_get_all (scripted scenario_script) example_client ''E'' (Some 1) caller_world) \<noteq> []"
    by code_simp
  have m: "map_of (case Some 1 of None \<Rightarrow> [] | Some a \<Rightarrow> heap caller_world ! a) ''filter'' = Some (JStr ''state:started'')"
    by (simp only: option.case c) simp
  note t = querystring_never_mutated [where w = caller_world and net = "scripted scenario_script"
      and self = example_client and E = "''E''" and qs = "Some 1" and env = True]
  note 1 = t [THEN conjunct1, rule_format, OF l]
  note t3 = t [THEN conjunct2, THEN conjunct2, THEN mp, OF h]
  note 2 = t3 [THEN conjunct1, rule_format, OF l]
  have x: "last (run_issued caller_world (p_get_all (scripted scenario_script) example_client ''E'' (Some 1) caller_world))
      \<in> set (run_issued caller_world (p_get_all (scripted scenario_script) example_client ''E'' (Some 1) caller_world))"
    using n by (rule last_in_set)
  have k: "''filter'' \<noteq> ''envelope'' \<and> ''filter'' \<noteq> ''limit'' \<and> ''filter'' \<noteq> ''offset''" by simp
  from t3 [THEN conjunct2, THEN bspec, OF x, THEN conjunct2, THEN conjunct2, THEN conjunct2, THEN spec, THEN mp, OF k]
  have 3: "param (last (run_issued caller_world (p_get_all (scripted scenario_script) example_client ''E'' (Some 1) caller_world)))
      ''filter'' = Some (JStr ''state:started'')" by (simp only: m)
  from l c 1 h 2 n 3 show ?thesis by (intro conjI)
qed

section \<open>The envelope flag and the fresh cursor\<close>

text \<open>
  Claim C8. A \<^verbatim>\<open>_get_all\<close> call that returns has issued at least one request, its first
  request carries \<^verbatim>\<open>offset = 0\<close> and \<^verbatim>\<open>limit = 1000\<close> whatever world the call started in
  (so no cursor state is shared with an earlier call), and each of its requests carries
  \<^verbatim>\<open>envelope = 'true'\<close>. A \<^verbatim>\<open>_get\<close> with the default flag sends exactly the caller's
  parameters, and no request of the single-resource methods carries \<^verbatim>\<open>envelope\<close>.
  The request of every single pass through the loop body carries the flag too, so it
  is also on the requests of a fetch that never returns.
\<close>

theorem envelope_flag_and_fresh_cursor:
  "(p_get_all net self E qs w \<noteq> None \<longrightarrow>
      run_issued w (p_get_all net self E qs w) \<noteq> [] \<and>
      param (hd (run_issued w (p_get_all net self E qs w))) ''offset'' = Some (JInt 0) \<and>
      param (hd (run_issued w (p_get_all net self E qs w))) ''limit'' = Some (JInt 1000) \<and>
      (\<forall>x\<in>set (run_issued w (p_get_all net self E qs w)). param x ''envelope'' = Some (JStr ''true''))) \<and>
   issued w (snd (p_get net self E qs False w)) =
      [GET E (case qs of None \<Rightarrow> [] | Some a \<Rightarrow> heap w ! a) (auth_headers self)] \<and>
   (\<forall>x\<in>set (issued w (snd (get_story_activities py_repr net self story_id w))). param x ''envelope'' = None) \<and>
   (\<forall>x\<in>set (issued w (snd (get_project_memberships net self w))). param x ''envelope'' = None) \<and>
   (\<forall>x\<in>set (issued w (snd (get_account_memberships net self w))). param x ''envelope'' = None) \<and>
   (\<forall>x\<in>set (issued w (snd (get_integrations net self w))). param x ''envelope'' = None) \<and>
   (\<forall>x\<in>set (issued w (snd (get_integration py_repr net self integration_id w))). param x ''envelope'' = None) \<and>
   (\<forall>x\<in>set (issued w (snd (get_integration_stories py_repr net self integration_id w))).
       param x ''envelope'' = None) \<and>
   (\<forall>x\<in>set (issued w (snd (get_all_body net self E q results w))). param x ''envelope'' = Some (JStr ''true''))"
proof (intro conjI impI)
  assume r: "p_get_all net self E qs w \<noteq> None"
  note s = run_summary [OF r]
  show "run_issued w (p_get_all net self E qs w) \<noteq> []" by (rule s [THEN conjunct1])
  show "param (hd (run_issued w (p_get_all net self E qs w))) ''offset'' = Some (JInt 0)"
    by (rule s [THEN conjunct2, THEN conjunct1])
  show "param (hd (run_issued w (p_get_all net self E qs w))) ''limit'' = Some (JInt 1000)"
    by (rule s [THEN conjunct2, THEN conjunct2, THEN conjunct1])
  show "\<forall>x\<in>set (run_issued w (p_get_all net self E qs w)). param x ''envelope'' = Some (JStr ''true'')"
    by (rule s [THEN conjunct2, THEN conjunct2, THEN conjunct2])
next
  show "issued w (snd (p_get net self E qs False w)) =
      [GET E (case qs of None \<Rightarrow> [] | Some a \<Rightarrow> heap w ! a) (auth_headers self)]"
    by (simp add: p_get_world)
  show "\<forall>x\<in>set (issued w (snd (get_story_activities py_repr net self story_id w))). param x ''envelope'' = None"
    by (simp add: get_story_activities_def p_get_world issued_self param_def split: sum.splits option.splits)
  show "\<forall>x\<in>set (issued w (snd (get_project_memberships net self w))). param x ''envelope'' = None"
    by (simp add: get_project_memberships_def p_get_world issued_self param_def split: sum.splits option.splits)
  show "\<forall>x\<in>set (issued w (snd (get_account_memberships net self w))). param x ''envelope'' = None"
    by (simp add: get_account_memberships_def p_get_world issued_self param_def split: sum.splits option.splits)
  show "\<forall>x\<in>set (issued w (snd (get_integrations net self w))). param x ''envelope'' = None"
    by (simp add: get_integrations_def p_get_world issued_self param_def split: sum.splits option.splits)
  show "\<forall>x\<in>set (issued w (snd (get_integration py_repr net self integration_id w))). param x ''envelope'' = None"
    by (simp add: get_integration_def p_get_world issued_self param_def split: sum.splits option.splits)
  show "\<forall>x\<in>set (issued w (snd (get_integration_stories py_repr net self integration_id w))).
       param x ''envelope'' = None"
    by (simp add: get_integration_stories_def alloc_def p_get_eq Let_def issued_def param_def
          split: sum.splits option.splits)
  show "\<forall>x\<in>set (issued w (snd (get_all_body net self E q results w))). param x ''envelope'' = Some (JStr ''true'')"
    by (rule body_request_envelope)
qed

text \<open>A paginated fetch over the scenario, and \<^verbatim>\<open>get_integrations\<close> on the example client.\<close>

theorem envelope_flag_and_fresh_cursor_witness:
  "p_get_all (scripted scenario_script) example_client ''E'' (Some 1) caller_world \<noteq> None \<and>
   run_issued caller_world (p_get_all (scripted scenario_script) example_client ''E'' (Some 1) caller_world) \<noteq> [] \<and>
   param (hd (run_issued caller_world (p_get_all (scripted scenario_script) example_client ''E'' (Some 1) caller_world)))
      ''offset'' = Some (JInt 0) \<and>
   param (hd (run_issued caller_world (p_get_all (scripted scenario_script) example_client ''E'' (Some 1) caller_world)))
      ''limit'' = Some (JInt 1000) \<and>
   param (last (run_issued caller_world (p_get_all (scripted scenario_script) example_client ''E'' (Some 1) caller_world)))
      ''envelope'' = Some (JStr ''true'') \<and>
   issued start_world (snd (get_integrations empty_list_server example_client start_world)) \<noteq> [] \<and>
   param (last (issued start_world (snd (get_integrations empty_list_server example_client start_world))))
      ''envelope'' = None"
proof -
  have h: "p_get_all (scripted scenario_script) example_client ''E'' (Some 1) caller_world \<noteq> None"
    by code_simp
  have n: "issued start_world (snd (get_integrations empty_list_server example_client start_world)) \<noteq> []"
    by code_simp
  note a = envelope_flag_and_fresh_cursor [where net = "scripted scenario_script" and self = example_client
      and E = "''E''" and qs = "Some 1" and w = caller_world, THEN conjunct1, THEN mp, OF h]
  note b = envelope_flag_and_fresh_cursor [where net = empty_list_server and self = example_client
      and w = start_world, THEN conjunct2, THEN conjunct2, THEN conjunct2, THEN conjunct2, THEN conjunct2,
      THEN conjunct1]
  note a1 = a [THEN conjunct1]
  note a2 = a [THEN conjunct2, THEN conjunct1]
  note a3 = a [THEN conjunct2, THEN conjunct2, THEN conjunct1]
  note a4 = a [THEN conjunct2, THEN conjunct2, THEN conjunct2, THEN bspec, OF last_in_set, OF a1]
  note b1 = b [THEN bspec, OF last_in_set, OF n]
  from h a1 a2 a3 a4 n b1 show ?thesis by (intro conjI)
qed

section \<open>The shared filter of the client\<close>

text \<open>
  Claim C9. When \<^verbatim>\<open>self.api_filter\<close> is the live dictionary
  \<^verbatim>\<open>{'date_format': 'millis', 'filter': None}\<close> and \<^verbatim>\<open>get_stories_by_filter\<close> returns, the
  dictionary is still live and still holds exactly that, so the next call finds what
  this one found; and every request of the call carries \<^verbatim>\<open>date_format = 'millis'\<close> and
  \<^verbatim>\<open>filter\<close> set to the filter given.
\<close>

theorem api_filter_never_mutated:
  assumes ret: "get_stories_by_filter net self pivotal_filter w \<noteq> None"
    and live: "api_filter self < length (heap w)"
    and init: "heap w ! api_filter self = [(''date_format'', JStr ''millis''), (''filter'', JNull)]"
  shows "api_filter self < length (run_heap (get_stories_by_filter net self pivotal_filter w)) \<and>
         run_heap (get_stories_by_filter net self pivotal_filter w) ! api_filter self =
           [(''date_format'', JStr ''millis''), (''filter'', JNull)] \<and>
         (\<forall>x\<in>set (run_issued w (get_stories_by_filter net self pivotal_filter w)).
            param x ''date_format'' = Some (JStr ''millis'') \<and> param x ''filter'' = Some pivotal_filter)"
proof (cases "truthy (project_id self)")
  case False
  then have "get_stories_by_filter net self pivotal_filter w =
      Some (Inl (ApiError ''Project ID not set on API connection and is required by get_stories_by_filter().''), w)"
    by (simp add: get_stories_by_filter_def p_verify_project_id_exists_def)
  with live init show ?thesis by (simp add: run_issued_def)
next
  case True
  show ?thesis
  proof (cases "api_stories self")
    case None
    with True have "get_stories_by_filter net self pivotal_filter w =
      Some (Inl AttributeError, w\<lparr>heap := heap w @ [AList.update ''filter'' pivotal_filter (heap w ! api_filter self)]\<rparr>)"
      by (simp add: get_stories_by_filter_def p_verify_project_id_exists_def alloc_def dict_set_def)
    with live init show ?thesis by (simp add: run_issued_def nth_append)
  next
    case (Some uri)
    let ?w = "w\<lparr>heap := heap w @ [AList.update ''filter'' pivotal_filter (heap w ! api_filter self)]\<rparr>"
    let ?X = "p_get_all net self uri (Some (length (heap w))) ?w"
    have eq: "get_stories_by_filter net self pivotal_filter w = ?X"
      by (rule get_stories_by_filter_eq [OF True Some])
    from ret eq have r: "?X \<noteq> None" by simp
    have live2: "api_filter self < length (heap ?w)" using live by simp
    have same: "heap ?w ! api_filter self = heap w ! api_filter self" using live by (simp add: nth_append)
    from run_frame(1) [OF r] live2 have 1: "api_filter self < length (run_heap ?X)" by simp
    from run_frame(2) [OF r] live2 same init
    have 2: "run_heap ?X ! api_filter self = [(''date_format'', JStr ''millis''), (''filter'', JNull)]"
      by simp
    have c: "(case Some (length (heap w)) of None \<Rightarrow> [] | Some a \<Rightarrow> heap ?w ! a) =
               [(''date_format'', JStr ''millis''), (''filter'', pivotal_filter)]"
      using init by simp
    have iss: "run_issued w ?X = run_issued ?w ?X" by (simp add: run_issued_def)
    have 3: "\<forall>x\<in>set (run_issued w ?X).
            param x ''date_format'' = Some (JStr ''millis'') \<and> param x ''filter'' = Some pivotal_filter"
    proof
      fix x assume "x \<in> set (run_issued w ?X)"
      then have x: "x \<in> set (run_issued ?w ?X)" by (simp only: iss)
      note f = run_frame(3) [OF r, THEN bspec, OF x, unfolded c]
      have "param x ''date_format'' = map_of [(''date_format'', JStr ''millis''), (''filter'', pivotal_filter)] ''date_format''"
        by (rule f [THEN spec, THEN mp]) simp
      moreover have "param x ''filter'' = map_of [(''date_format'', JStr ''millis''), (''filter'', pivotal_filter)] ''filter''"
        by (rule f [THEN spec, THEN mp]) simp
      ultimately show "param x ''date_format'' = Some (JStr ''millis'') \<and> param x ''filter'' = Some pivotal_filter"
        by simp
    qed
    from 1 2 3 show ?thesis unfolding eq by (intro conjI)
  qed
qed


text \<open>A call with the filter \<^verbatim>\<open>state:started\<close> on the example client.\<close>

theorem api_filter_never_mutated_witness:
  "get_stories_by_filter (scripted scenario_script) example_client (JStr ''state:started'') start_world \<noteq> None \<and>
   api_filter example_client < length (heap start_world) \<and>
   heap start_world ! api_filter example_client = [(''date_format'', JStr ''millis''), (''filter'', JNull)] \<and>
   run_heap (get_stories_by_filter (scripted scenario_script) example_client (JStr ''state:started'') start_world)
     ! api_filter example_client = [(''date_format'', JStr ''millis''), (''filter'', JNull)] \<and>
   run_issued start_world
     (get_stories_by_filter (scripted scenario_script) example_client (JStr ''state:started'') start_world) \<noteq> [] \<and>
   param (last (run_issued start_world
     (get_stories_by_filter (scripted scenario_script) example_client (JStr ''state:started'') start_world)))
     ''filter'' = Some (JStr ''state:started'') \<and>
   param (last (run_issued start_world
     (get_stories_by_filter (scripted scenario_script) example_client (JStr ''state:started'') start_world)))
     ''date_format'' = Some (JStr ''millis'')"
proof -
  have h: "get_stories_by_filter (scripted scenario_script) example_client (JStr ''state:started'') start_world \<noteq> None"
    by code_simp
  have l: "api_filter example_client < length (heap start_world)" by code_simp
  have i: "heap start_world ! api_filter example_client = [(''date_format'', JStr ''millis''), (''filter'', JNull)]"
    by code_simp
  have n: "run_issued start_world
     (get_stories_by_filter (scripted scenario_script) example_client (JStr ''state:started'') start_world) \<noteq> []"
    by code_simp
  note t = api_filter_never_mutated [OF h l i]
  note t2 = t [THEN conjunct2, THEN conjunct1]
  note t3 = t [THEN conjunct2, THEN conjunct2, THEN bspec, OF last_in_set, OF n]
  from h l i t2 n t3 [THEN conjunct2] t3 [THEN conjunct1] show ?thesis by (intro conjI)
qed

section \<open>Fetching all pages\<close>

text \<open>
  Claim C1, as the code has it. Take any server, one that reads the cursor of each
  request or one that does not. When it answers the requests the call sends with
  non-empty pages (2xx answers whose \<^verbatim>\<open>data\<close> is a non-empty list and whose pagination is
  absent or has an integer limit) and then with an empty page, the \<^verbatim>\<open>_get_all\<close> call
  returns: its value is the concatenation of the pages in the order served, the
  requests it issued are the request for each page and the one that met the empty
  page, one GET per non-empty page plus one. That number is \<open>\<lceil>N / L\<rceil> + 1\<close>, for \<open>N\<close>
  records in total, when every page before the last non-empty one has exactly \<open>L\<close>
  records and the last has at most \<open>L\<close>.
\<close>

theorem get_all_pages:
  assumes an: "answers net (calls w)
                 (requests_for self E (case qs of None \<Rightarrow> [] | Some a \<Rightarrow> heap w ! a) (map snd pages))
                 (map answer pages @ [answer final])"
    and pg: "list_all2 page_of pages recs"
    and fin: "200 \<le> fst final \<and> fst final < 300 \<and> page_data (snd final) = Some []"
  shows "run_value (p_get_all net self E qs w) = Some (Inr (concat recs)) \<and>
         run_issued w (p_get_all net self E qs w) =
           requests_for self E (case qs of None \<Rightarrow> [] | Some a \<Rightarrow> heap w ! a) (map snd pages) \<and>
         length (run_issued w (p_get_all net self E qs w)) = length recs + 1 \<and>
         (0 < L \<and> (\<forall>xs\<in>set (butlast recs). length xs = L) \<and> (recs \<noteq> [] \<longrightarrow> length (last recs) \<le> L) \<longrightarrow>
            length (run_issued w (p_get_all net self E qs w)) = (length (concat recs) + L - 1) div L + 1)"
proof -
  let ?reqs = "requests_for self E (case qs of None \<Rightarrow> [] | Some a \<Rightarrow> heap w ! a) (map snd pages)"
  from answered_prefix [where net = net and self = self and E = E and qs = qs, OF an pg]
  obtain q w1 where p: "p_get_all net self E qs w = get_all_loop net self E q (concat recs) w1"
     "calls w1 @ [cursor_request self E (heap w1 ! q)] = calls w @ ?reqs"
     "net (calls w1) (cursor_request self E (heap w1 ! q)) = answer final" by blast
  from fin have f: "200 \<le> fst final" "fst final < 300" "page_data (snd final) = Some []" by simp_all
  from body_empty_page [where net = net and self = self and E = E and q = q and w = w1, OF p(3) f]
  obtain w2 where b: "get_all_body net self E q (concat recs) w1 = (Leave (Inr (concat recs)), w2)"
     "calls w2 = calls w1 @ [cursor_request self E (heap w1 ! q)]" by blast
  from b(1) have l: "get_all_loop net self E q (concat recs) w1 = Some (Inr (concat recs), w2)"
    by (subst get_all_loop.simps) simp
  from b(2) p(2) have c: "calls w2 = calls w @ ?reqs" by simp
  note r = run_of_loop_requests [OF l p(1) c]
  from list_all2_lengthD [OF pg] have len: "length pages = length recs" .
  have n: "length (run_issued w (p_get_all net self E qs w)) = length recs + 1"
    using r [THEN conjunct2] len by (simp add: length_requests_for)
  have cnt: "0 < L \<and> (\<forall>xs\<in>set (butlast recs). length xs = L) \<and> (recs \<noteq> [] \<longrightarrow> length (last recs) \<le> L) \<longrightarrow>
            length (run_issued w (p_get_all net self E qs w)) = (length (concat recs) + L - 1) div L + 1"
  proof
    assume a: "0 < L \<and> (\<forall>xs\<in>set (butlast recs). length xs = L) \<and> (recs \<noteq> [] \<longrightarrow> length (last recs) \<le> L)"
    from full_pages_count [OF a [THEN conjunct1] a [THEN conjunct2, THEN conjunct1]
        a [THEN conjunct2, THEN conjunct2] page_of_nonempty [OF pg]]
    show "length (run_issued w (p_get_all net self E qs w)) = (length (concat recs) + L - 1) div L + 1"
      using n by simp
  qed
  from r [THEN conjunct1] r [THEN conjunct2] n cnt show ?thesis by (intro conjI)
qed


text \<open>
  The two scenarios of the specification: pages \<^verbatim>\<open>[a, b]\<close>, \<^verbatim>\<open>[c]\<close>, \<^verbatim>\<open>[]\<close> with limit 2
  give \<^verbatim>\<open>[a, b, c]\<close> after exactly 3 calls, and an empty first page gives the empty
  sequence after exactly 1 call. And a server that reads \<^verbatim>\<open>offset\<close> and \<^verbatim>\<open>limit\<close>: three
  records in pages of at most two.
\<close>

theorem get_all_pages_witness:
  "answers (scripted scenario_script) (calls start_world)
     (requests_for example_client ''E'' (case None of None \<Rightarrow> [] | Some a \<Rightarrow> heap start_world ! a)
        (map snd [(200::int, envelope [story 1, story 2] (Some (JInt 2))), (200, envelope [story 3] (Some (JInt 2)))]))
     (map answer [(200::int, envelope [story 1, story 2] (Some (JInt 2))), (200, envelope [story 3] (Some (JInt 2)))]
        @ [answer (200, envelope [] (Some (JInt 2)))]) \<and>
   list_all2 page_of [(200::int, envelope [story 1, story 2] (Some (JInt 2))), (200, envelope [story 3] (Some (JInt 2)))]
     [[story 1, story 2], [story 3]] \<and>
   run_value (p_get_all (scripted scenario_script) example_client ''E'' None start_world)
     = Some (Inr [story 1, story 2, story 3]) \<and>
   length (run_issued start_world (p_get_all (scripted scenario_script) example_client ''E'' None start_world)) = 3 \<and>
   length (run_issued start_world (p_get_all (scripted scenario_script) example_client ''E'' None start_world))
     = (length [story 1, story 2, story 3] + 2 - 1) div 2 + 1 \<and>
   answers (scripted empty_script) (calls start_world)
     (requests_for example_client ''E'' (case None of None \<Rightarrow> [] | Some a \<Rightarrow> heap start_world ! a) (map snd ([]::(int \<times> json) list)))
     (map answer ([]::(int \<times> json) list) @ [answer (200, envelope [] (Some (JInt 2)))]) \<and>
   run_value (p_get_all (scripted empty_script) example_client ''E'' None start_world) = Some (Inr []) \<and>
   length (run_issued start_world (p_get_all (scripted empty_script) example_client ''E'' None start_world)) = 1 \<and>
   answers (paging_server [story 1, story 2, story 3] 2) (calls start_world)
     (requests_for example_client ''E'' (case None of None \<Rightarrow> [] | Some a \<Rightarrow> heap start_world ! a)
        (map snd [(200::int, envelope [story 1, story 2] (Some (JInt 2))), (200, envelope [story 3] (Some (JInt 2)))]))
     (map answer [(200::int, envelope [story 1, story 2] (Some (JInt 2))), (200, envelope [story 3] (Some (JInt 2)))]
        @ [answer (200, envelope [] (Some (JInt 2)))]) \<and>
   run_value (p_get_all (paging_server [story 1, story 2, story 3] 2) example_client ''E'' None start_world)
     = Some (Inr [story 1, story 2, story 3]) \<and>
   length (run_issued start_world
     (p_get_all (paging_server [story 1, story 2, story 3] 2) example_client ''E'' None start_world)) = 3"
proof -
  let ?pages = "[(200::int, envelope [story 1, story 2] (Some (JInt 2))), (200, envelope [story 3] (Some (JInt 2)))]"
  let ?final = "(200::int, envelope [] (Some (JInt 2)))"
  let ?recs = "[[story 1, story 2], [story 3]]"
  let ?d = "case None of None \<Rightarrow> [] | Some a \<Rightarrow> heap start_world ! a"
  have a1: "answers (scripted scenario_script) (calls start_world)
     (requests_for example_client ''E'' ?d (map snd ?pages)) (map answer ?pages @ [answer ?final])"
    by code_simp
  have a2: "answers (scripted empty_script) (calls start_world)
     (requests_for example_client ''E'' ?d (map snd ([]::(int \<times> json) list))) (map answer ([]::(int \<times> json) list) @ [answer ?final])"
    by code_simp
  have a3: "answers (paging_server [story 1, story 2, story 3] 2) (calls start_world)
     (requests_for example_client ''E'' ?d (map snd ?pages)) (map answer ?pages @ [answer ?final])"
    by code_simp
  have p1: "list_all2 page_of ?pages ?recs"
    by (simp add: page_of_def page_data_def usable_limit_def envelope_def)
  have p2: "list_all2 page_of ([]::(int \<times> json) list) []" by simp
  have f: "200 \<le> fst ?final \<and> fst ?final < 300 \<and> page_data (snd ?final) = Some []"
    by (simp add: page_data_def envelope_def)
  note t1 = get_all_pages [where L = 2, OF a1 p1 f]
  note t2 = get_all_pages [where L = 2, OF a2 p2 f]
  note t3 = get_all_pages [where L = 2, OF a3 p1 f]
  have c: "0 < (2::nat) \<and> (\<forall>xs\<in>set (butlast ?recs). length xs = 2) \<and> (?recs \<noteq> [] \<longrightarrow> length (last ?recs) \<le> 2)"
    by simp
  have 1: "run_value (p_get_all (scripted scenario_script) example_client ''E'' None start_world)
     = Some (Inr [story 1, story 2, story 3])" using t1 [THEN conjunct1] by simp
  have 2: "length (run_issued start_world (p_get_all (scripted scenario_script) example_client ''E'' None start_world)) = 3"
    using t1 [THEN conjunct2, THEN conjunct2, THEN conjunct1] by simp
  have 3: "length (run_issued start_world (p_get_all (scripted scenario_script) example_client ''E'' None start_world))
     = (length [story 1, story 2, story 3] + 2 - 1) div 2 + 1"
    using t1 [THEN conjunct2, THEN conjunct2, THEN conjunct2, THEN mp, OF c] by simp
  have 4: "run_value (p_get_all (scripted empty_script) example_client ''E'' None start_world) = Some (Inr [])"
    using t2 [THEN conjunct1] by simp
  have 5: "length (run_issued start_world (p_get_all (scripted empty_script) example_client ''E'' None start_world)) = 1"
    using t2 [THEN conjunct2, THEN conjunct2, THEN conjunct1] by simp
  have 6: "run_value (p_get_all (paging_server [story 1, story 2, story 3] 2) example_client ''E'' None start_world)
     = Some (Inr [story 1, story 2, story 3])" using t3 [THEN conjunct1] by simp
  have 7: "length (run_issued start_world
     (p_get_all (paging_server [story 1, story 2, story 3] 2) example_client ''E'' None start_world)) = 3"
    using t3 [THEN conjunct2, THEN conjunct2, THEN conjunct1] by simp
  from a1 p1 1 2 3 a2 4 5 a3 6 7 show ?thesis by (intro conjI)
qed


text \<open>
  Claim C1 as stated fails in its count: pages may be shorter than the limit. A server
  that reports the limit 2 and serves two pages of one record each, then an empty
  page, has served 2 records; the call issues 3 GETs, and \<open>\<lceil>2 / 2\<rceil> + 1\<close> is 2.
\<close>

theorem short_pages_counterexample:
  "run_value (p_get_all (scripted short_pages_script) example_client ''E'' None start_world)
     = Some (Inr [story 1, story 2]) \<and>
   limits_sent (run_issued start_world (p_get_all (scripted short_pages_script) example_client ''E'' None start_world))
     = [Some (JInt 1000), Some (JInt 2), Some (JInt 2)] \<and>
   length (run_issued start_world (p_get_all (scripted short_pages_script) example_client ''E'' None start_world)) = 3 \<and>
   (length [story 1, story 2] + 2 - 1) div 2 + 1 = (2::nat)"
  by code_simp


section \<open>A failing page\<close>

text \<open>
  Claim C4, as the code has it. Take any server that has answered the requests of a
  \<^verbatim>\<open>_get_all\<close> call with some non-empty pages. When the next fetch fails, the call ends
  with the error \<^verbatim>\<open>_get\<close> raised, right after that request (the requests issued are
  those for the pages and the failed one), and no record of the earlier pages is
  returned. For an answer with a non-2xx status \<open>s\<close> the error is the \<^verbatim>\<open>ApiError\<close> with
  the message \<^verbatim>\<open>GET <endpoint> <s>\<close>; for a 2xx answer whose body is not JSON it is the
  decoder's error, and for an exception of the HTTP library that exception.
\<close>

theorem page_failure_aborts:
  assumes an: "answers net (calls w)
                 (requests_for self E (case qs of None \<Rightarrow> [] | Some a \<Rightarrow> heap w ! a) (map snd pages))
                 (map answer pages @ [bad])"
    and pg: "list_all2 page_of pages recs"
  shows "(\<forall>s b. bad = Returned (Some (Response s b)) \<and> \<not> (200 \<le> s \<and> s < 300) \<longrightarrow>
            run_value (p_get_all net self E qs w) = Some (Inl (ApiError (''GET '' @ E @ '' '' @ string_of_int s))) \<and>
            run_issued w (p_get_all net self E qs w) =
              requests_for self E (case qs of None \<Rightarrow> [] | Some a \<Rightarrow> heap w ! a) (map snd pages)) \<and>
         (\<forall>s. bad = Returned (Some (Response s None)) \<and> 200 \<le> s \<and> s < 300 \<longrightarrow>
            run_value (p_get_all net self E qs w) = Some (Inl JSONDecodeError) \<and>
            run_issued w (p_get_all net self E qs w) =
              requests_for self E (case qs of None \<Rightarrow> [] | Some a \<Rightarrow> heap w ! a) (map snd pages)) \<and>
         (\<forall>x. bad = Raised x \<longrightarrow>
            run_value (p_get_all net self E qs w) = Some (Inl (RequestException x)) \<and>
            run_issued w (p_get_all net self E qs w) =
              requests_for self E (case qs of None \<Rightarrow> [] | Some a \<Rightarrow> heap w ! a) (map snd pages))"
proof (intro conjI allI impI)
  fix s b
  assume a: "bad = Returned (Some (Response s b)) \<and> \<not> (200 \<le> s \<and> s < 300)"
  then have "(case bad of Raised x \<Rightarrow> Inl (RequestException x) | Returned resp \<Rightarrow> check_response E resp)
               = Inl (ApiError (''GET '' @ E @ '' '' @ string_of_int s))"
    by (auto simp: check_response_def)
  note t = answered_failure [OF an pg this]
  show "run_value (p_get_all net self E qs w) = Some (Inl (ApiError (''GET '' @ E @ '' '' @ string_of_int s)))"
    by (rule t [THEN conjunct1])
  show "run_issued w (p_get_all net self E qs w) =
              requests_for self E (case qs of None \<Rightarrow> [] | Some a \<Rightarrow> heap w ! a) (map snd pages)"
    by (rule t [THEN conjunct2])
next
  fix s
  assume a: "bad = Returned (Some (Response s None)) \<and> 200 \<le> s \<and> s < 300"
  then have "(case bad of Raised x \<Rightarrow> Inl (RequestException x) | Returned resp \<Rightarrow> check_response E resp)
               = Inl JSONDecodeError"
    by (auto simp: check_response_def resp_ok_def)
  note t = answered_failure [OF an pg this]
  show "run_value (p_get_all net self E qs w) = Some (Inl JSONDecodeError)" by (rule t [THEN conjunct1])
  show "run_issued w (p_get_all net self E qs w) =
              requests_for self E (case qs of None \<Rightarrow> [] | Some a \<Rightarrow> heap w ! a) (map snd pages)"
    by (rule t [THEN conjunct2])
next
  fix x
  assume a: "bad = Raised x"
  then have "(case bad of Raised x \<Rightarrow> Inl (RequestException x) | Returned resp \<Rightarrow> check_response E resp)
               = Inl (RequestException x)"
    by simp
  note t = answered_failure [OF an pg this]
  show "run_value (p_get_all net self E qs w) = Some (Inl (RequestException x))" by (rule t [THEN conjunct1])
  show "run_issued w (p_get_all net self E qs w) =
              requests_for self E (case qs of None \<Rightarrow> [] | Some a \<Rightarrow> heap w ! a) (map snd pages)"
    by (rule t [THEN conjunct2])
qed

text \<open>One page of two records, then a 404 with a JSON error body for endpoint \<^verbatim>\<open>E\<close>.\<close>

theorem page_failure_aborts_witness:
  "answers outage_server (calls start_world)
     (requests_for example_client ''E'' (case None of None \<Rightarrow> [] | Some a \<Rightarrow> heap start_world ! a)
        (map snd [(200::int, envelope [story 1, story 2] (Some (JInt 2)))]))
     (map answer [(200::int, envelope [story 1, story 2] (Some (JInt 2)))]
        @ [Returned (Some (Response 404 (Some (JObj [(''error'', JStr ''not found'')]))))]) \<and>
   list_all2 page_of [(200::int, envelope [story 1, story 2] (Some (JInt 2)))] [[story 1, story 2]] \<and>
   \<not> (200 \<le> (404::int) \<and> (404::int) < 300) \<and>
   run_value (p_get_all outage_server example_client ''E'' None start_world)
     = Some (Inl (ApiError ''GET E 404'')) \<and>
   length (run_issued start_world (p_get_all outage_server example_client ''E'' None start_world)) = 2"
proof -
  let ?pages = "[(200::int, envelope [story 1, story 2] (Some (JInt 2)))]"
  let ?bad = "Returned (Some (Response 404 (Some (JObj [(''error'', JStr ''not found'')]))))"
  let ?d = "case None of None \<Rightarrow> [] | Some a \<Rightarrow> heap start_world ! a"
  have a: "answers outage_server (calls start_world)
     (requests_for example_client ''E'' ?d (map snd ?pages)) (map answer ?pages @ [?bad])"
    by code_simp
  have p: "list_all2 page_of ?pages [[story 1, story 2]]"
    by (simp add: page_of_def page_data_def usable_limit_def envelope_def)
  have s: "\<not> (200 \<le> (404::int) \<and> (404::int) < 300)" by simp
  have b: "?bad = Returned (Some (Response 404 (Some (JObj [(''error'', JStr ''not found'')])))) \<and>
           \<not> (200 \<le> (404::int) \<and> (404::int) < 300)" by simp
  note t = page_failure_aborts [OF a p, THEN conjunct1, THEN spec, THEN spec, THEN mp, OF b]
  have m: "''GET '' @ ''E'' @ '' '' @ string_of_int 404 = ''GET E 404''"
    by (simp add: string_of_int_def string_of_nat.simps)
  have 1: "run_value (p_get_all outage_server example_client ''E'' None start_world)
     = Some (Inl (ApiError ''GET E 404''))" using t [THEN conjunct1] by (simp only: m)
  have 2: "length (run_issued start_world (p_get_all outage_server example_client ''E'' None start_world)) = 2"
    using t [THEN conjunct2] by (simp add: length_requests_for)
  from a p s 1 2 show ?thesis by (intro conjI)
qed


text \<open>
  Claim C4 as stated fails: not every failing fetch gives an error that names the
  endpoint and the status. After one good page, a 200 answer whose body is not JSON
  ends the call with the decoder's error, which carries neither.
\<close>

theorem non_json_failure_counterexample:
  "run_value (p_get_all (scripted non_json_script) example_client ''E'' None start_world)
     = Some (Inl JSONDecodeError)"
  by code_simp

section \<open>The stories of all integrations\<close>

text \<open>
  Claim C10. When \<^verbatim>\<open>get_integrations\<close> returns a list of integrations (dictionaries,
  with identifiers \<open>ids\<close> as \<^verbatim>\<open>integration.get('id')\<close> reads them),
  \<^verbatim>\<open>get_all_integration_stories\<close> does what calling \<^verbatim>\<open>get_integration_stories\<close> for each
  identifier in that order does, and returns the concatenation of the lists obtained
  (or the first error met); every request issued after the one of \<^verbatim>\<open>get_integrations\<close>
  carries \<^verbatim>\<open>exclude_linked = 'true'\<close>. With the project identifier unset the method
  raises the guard's error, raised in \<^verbatim>\<open>get_integrations\<close>, and the world is unchanged:
  no GET was issued.
\<close>

theorem all_integration_stories:
  "(get_integrations net self w = (Inr (JList integrations), w1) \<and>
    map (\<lambda>i. dict_get i ''id'' JNull) integrations = map Inr ids \<longrightarrow>
      get_all_integration_stories py_repr net self w =
        (case integration_stories_in_order py_repr net self ids w1 of
           (Inl e, w2) \<Rightarrow> (Inl e, w2)
         | (Inr xss, w2) \<Rightarrow> (Inr (concat xss), w2)) \<and>
      (\<forall>x\<in>set (issued w1 (snd (get_all_integration_stories py_repr net self w))).
         param x ''exclude_linked'' = Some (JStr ''true''))) \<and>
   (\<not> truthy (project_id self) \<longrightarrow>
      get_all_integration_stories py_repr net self w =
        (Inl (ApiError ''Project ID not set on API connection and is required by get_integrations().''), w))"
proof (intro conjI impI)
  assume a: "get_integrations net self w = (Inr (JList integrations), w1) \<and>
    map (\<lambda>i. dict_get i ''id'' JNull) integrations = map Inr ids"
  then have g: "get_integrations net self w = (Inr (JList integrations), w1)"
    and m: "map (\<lambda>i. dict_get i ''id'' JNull) integrations = map Inr ids" by simp_all
  show eq: "get_all_integration_stories py_repr net self w =
        (case integration_stories_in_order py_repr net self ids w1 of
           (Inl e, w2) \<Rightarrow> (Inl e, w2)
         | (Inr xss, w2) \<Rightarrow> (Inr (concat xss), w2))"
    by (simp add: get_all_integration_stories_def g loop_is_concat [OF m] split: prod.splits sum.splits)
  have w: "snd (get_all_integration_stories py_repr net self w) =
           snd (integration_stories_in_order py_repr net self ids w1)"
    unfolding eq by (simp split: prod.splits sum.splits)
  from in_order_calls [of py_repr net self ids w1]
  show "\<forall>x\<in>set (issued w1 (snd (get_all_integration_stories py_repr net self w))).
         param x ''exclude_linked'' = Some (JStr ''true'')"
    unfolding w by (auto simp: issued_def)
next
  assume "\<not> truthy (project_id self)"
  then show "get_all_integration_stories py_repr net self w =
        (Inl (ApiError ''Project ID not set on API connection and is required by get_integrations().''), w)"
    by (simp add: get_all_integration_stories_def get_integrations_def p_verify_project_id_exists_def)
qed


text \<open>Two integrations with two stories and one story; and the client without identifiers.\<close>

theorem all_integration_stories_witness:
  "get_integrations (scripted integration_script) example_client start_world
     = (Inr (JList [story 1, story 2]), after_integrations) \<and>
   map (\<lambda>i. dict_get i ''id'' JNull) [story 1, story 2] = map Inr [JInt 1, JInt 2] \<and>
   fst (get_all_integration_stories example_repr (scripted integration_script) example_client start_world)
     = Inr [story 10, story 11, story 20] \<and>
   length (issued after_integrations
     (snd (get_all_integration_stories example_repr (scripted integration_script) example_client start_world))) = 2 \<and>
   param (last (issued after_integrations
     (snd (get_all_integration_stories example_repr (scripted integration_script) example_client start_world))))
     ''exclude_linked'' = Some (JStr ''true'') \<and>
   \<not> truthy (project_id anonymous_client) \<and>
   get_all_integration_stories example_repr (scripted integration_script) anonymous_client start_world =
     (Inl (ApiError ''Project ID not set on API connection and is required by get_integrations().''), start_world)"
proof -
  have g: "get_integrations (scripted integration_script) example_client start_world
     = (Inr (JList [story 1, story 2]), after_integrations)" by code_simp
  have m: "map (\<lambda>i. dict_get i ''id'' JNull) [story 1, story 2] = map Inr [JInt 1, JInt 2]"
    by (simp add: story_def)
  have v: "fst (case integration_stories_in_order example_repr (scripted integration_script) example_client
                  [JInt 1, JInt 2] after_integrations of
                  (Inl e, w2) \<Rightarrow> (Inl e, w2)
                | (Inr xss, w2) \<Rightarrow> (Inr (concat xss), w2)) = Inr [story 10, story 11, story 20]"
    by code_simp
  have n: "length (issued after_integrations
     (snd (get_all_integration_stories example_repr (scripted integration_script) example_client start_world))) = 2"
    by code_simp
  then have ne: "issued after_integrations
     (snd (get_all_integration_stories example_repr (scripted integration_script) example_client start_world)) \<noteq> []"
    by auto
  have u: "\<not> truthy (project_id anonymous_client)" by (simp add: anonymous_client_simps)
  note t = all_integration_stories [where net = "scripted integration_script" and self = example_client
     and w = start_world and py_repr = example_repr, THEN conjunct1, THEN mp, OF conjI, OF g m]
  note t' = all_integration_stories [where net = "scripted integration_script" and self = anonymous_client
     and w = start_world and py_repr = example_repr, THEN conjunct2, THEN mp, OF u]
  have 1: "fst (get_all_integration_stories example_repr (scripted integration_script) example_client start_world)
     = Inr [story 10, story 11, story 20]"
    by (simp only: t [THEN conjunct1] v)
  note 2 = t [THEN conjunct2, THEN bspec, OF last_in_set, OF ne]
  from g m 1 n 2 u t' show ?thesis by (intro conjI)
qed

end
